theory Spec2Isabelle
  imports Complex_Main "HOL-Library.Multiset"
begin

section \<open>Data model\<close>

text \<open>
  The attendance log rows of the admin view (interface \<open>AttendanceLog\<close>). The source
  keeps \<open>timestamp\<close> as a string and reads it only through
  \<open>new Date(log.timestamp).getTime()\<close>; the field below holds that value, the instant in
  milliseconds. The numeric row id is called \<open>log_id\<close>.
\<close>

datatype log_type = IN | OUT

record AttendanceLog =
  log_id :: int
  employee_id :: string
  employee_name :: string
  timestamp :: int
  type :: log_type
  latitude :: real
  longitude :: real
  photo_path :: string
  gps_status :: string

text \<open>
  The objects pushed onto \<open>shifts\<close>. The source renders \<open>date\<close> and \<open>in\<close> from
  \<open>new Date(inLog.timestamp)\<close> (\<open>toLocaleDateString\<close>, \<open>toLocaleTimeString\<close>) and \<open>out\<close>
  from \<open>new Date(log.timestamp)\<close>; the record holds the instants handed to these renderers,
  and \<open>None\<close> is the invalid date that \<open>new Date(undefined)\<close> gives. \<open>hours\<close> is the string
  returned by \<open>hours.toFixed(2)\<close>.
\<close>

record shift =
  employee :: string
  date :: "int option"
  inTime :: "int option"
  outTime :: int
  hours :: string
  isOvertime :: bool

section \<open>The object \<open>lastIn\<close>\<close>

text \<open>
  \<open>lastIn\<close> is created by the literal \<open>{}\<close>: an ordinary object whose prototype is
  \<open>Object.prototype\<close>. A read \<open>lastIn[k]\<close> that finds no own property \<open>k\<close> goes on along the
  prototype chain, and the key \<open>__proto__\<close> is an accessor of \<open>Object.prototype\<close> that reads
  and sets the prototype of \<open>lastIn\<close> itself. The values such a read can give:
  \<^item> \<open>Undefined\<close>: no property of that name on the chain;
  \<^item> \<open>Row r\<close>: a row object;
  \<^item> \<open>Num x\<close>, \<open>Str s\<close>: a number or a string, the value of a field of a row;
  \<^item> \<open>Timestamp t\<close>: the \<open>timestamp\<close> string of a row, known by the instant it denotes;
  \<^item> \<open>ObjectPrototype\<close>: the object \<open>Object.prototype\<close>;
  \<^item> \<open>Builtin k\<close>: the function that is the member \<open>k\<close> of \<open>Object.prototype\<close>.
\<close>

datatype js_value =
    Undefined
  | Row AttendanceLog
  | Num real
  | Str string
  | Timestamp int
  | ObjectPrototype
  | Builtin string

text \<open>The truth value of a value in a condition: objects and functions are true, a number
  unless it is 0, a string unless it is empty.\<close>

fun truthy :: "js_value \<Rightarrow> bool" where
  "truthy Undefined = False"
| "truthy (Row r) = True"
| "truthy (Num x) = (x \<noteq> 0)"
| "truthy (Str s) = (s \<noteq> [])"
| "truthy (Timestamp t) = True"
| "truthy ObjectPrototype = True"
| "truthy (Builtin k) = True"

text \<open>
  \<open>new Date(v.timestamp).getTime()\<close> for a value \<open>v\<close> that is not undefined: the instant of a
  row; any other value has no property \<open>timestamp\<close>, and \<open>new Date(undefined).getTime()\<close> is
  NaN, here \<open>None\<close>.
\<close>

fun getTime :: "js_value \<Rightarrow> int option" where
  "getTime (Row r) = Some (timestamp r)"
| "getTime v = None"

text \<open>
  The members of \<open>Object.prototype\<close>: eleven functions and the accessor \<open>__proto__\<close>.
\<close>

definition Object_prototype_functions :: "string list" where
  "Object_prototype_functions =
     [''constructor'', ''toString'', ''toLocaleString'', ''valueOf'', ''hasOwnProperty'',
      ''isPrototypeOf'', ''propertyIsEnumerable'', ''__defineGetter__'', ''__defineSetter__'',
      ''__lookupGetter__'', ''__lookupSetter__'']"

definition Object_prototype_keys :: "string list" where
  "Object_prototype_keys = ''__proto__'' # Object_prototype_functions"

definition Object_prototype_get :: "string \<Rightarrow> js_value" where
  "Object_prototype_get k =
     (if k \<in> set Object_prototype_functions then Builtin k else Undefined)"

text \<open>
  The own properties of a row object, as the server sends them (the columns of the query):
  \<open>None\<close> when the row has no own property of that name.
\<close>

definition row_get :: "AttendanceLog \<Rightarrow> string \<Rightarrow> js_value option" where
  "row_get r k =
     (if k = ''id'' then Some (Num (real_of_int (log_id r)))
      else if k = ''employee_id'' then Some (Str (employee_id r))
      else if k = ''employee_name'' then Some (Str (employee_name r))
      else if k = ''timestamp'' then Some (Timestamp (timestamp r))
      else if k = ''type'' then Some (Str (case type r of IN \<Rightarrow> ''IN'' | OUT \<Rightarrow> ''OUT''))
      else if k = ''latitude'' then Some (Num (latitude r))
      else if k = ''longitude'' then Some (Num (longitude r))
      else if k = ''photo_path'' then Some (Str (photo_path r))
      else if k = ''gps_status'' then Some (Str (gps_status r))
      else None)"

text \<open>
  The object \<open>lastIn\<close>: its own properties, all of them rows (the loop assigns nothing
  else), and its prototype, which is \<open>Object.prototype\<close> or, after an assignment to the key
  \<open>__proto__\<close>, a row.
\<close>

datatype prototype = Proto_Object | Proto_Row AttendanceLog

record js_object =
  own :: "string \<rightharpoonup> AttendanceLog"
  proto :: prototype

text \<open>The read \<open>obj[k]\<close>.\<close>

definition js_get :: "js_object \<Rightarrow> string \<Rightarrow> js_value" where
  "js_get obj k =
     (if k = ''__proto__'' then
        (case proto obj of Proto_Object \<Rightarrow> ObjectPrototype | Proto_Row r \<Rightarrow> Row r)
      else
        (case own obj k of
           Some r \<Rightarrow> Row r
         | None \<Rightarrow>
             (case proto obj of
                Proto_Object \<Rightarrow> Object_prototype_get k
              | Proto_Row r \<Rightarrow>
                  (case row_get r k of Some v \<Rightarrow> v | None \<Rightarrow> Object_prototype_get k))))"

text \<open>
  The assignment \<open>obj[k] = row\<close>: the key \<open>__proto__\<close> makes the row the prototype of
  \<open>obj\<close>, any other key becomes an own property (every other property on the chain is a
  writable data property).
\<close>

definition js_set :: "js_object \<Rightarrow> string \<Rightarrow> AttendanceLog \<Rightarrow> js_object" where
  "js_set obj k r =
     (if k = ''__proto__'' then obj\<lparr>proto := Proto_Row r\<rparr>
      else obj\<lparr>own := (own obj)(k \<mapsto> r)\<rparr>)"

text \<open>\<open>delete obj[k]\<close> removes an own property; it leaves the prototype chain as it is.\<close>

definition js_delete :: "js_object \<Rightarrow> string \<Rightarrow> js_object" where
  "js_delete obj k = obj\<lparr>own := (own obj)(k := None)\<rparr>"

section \<open>Shift calculation\<close>

text \<open>
  JavaScript numbers are doubles. The difference of two instants is an integer and is exact
  (below \<open>2\<^sup>5\<^sup>3\<close> in magnitude); its quotient by the milliseconds of an hour is rounded to
  the nearest double, ties to the even one: with \<open>e\<close> the binary exponent of \<open>x\<close>, the
  doubles around \<open>x\<close> are the multiples of \<open>2\<^sup>e\<^sup>-\<^sup>5\<^sup>2\<close>. (This is the rounding of the normal
  range of doubles, in which every quotient of an integer below \<open>2\<^sup>5\<^sup>3\<close> by 3600000 lies
  unless it is 0.)
\<close>

definition pow2 :: "int \<Rightarrow> real" where
  "pow2 k = (if 0 \<le> k then 2 ^ nat k else 1 / 2 ^ nat (- k))"

definition round_half_even :: "real \<Rightarrow> int" where
  "round_half_even y =
     (let f = \<lfloor>y\<rfloor>; d = y - of_int f
      in if d < 1 / 2 then f else if 1 / 2 < d then f + 1 else if even f then f else f + 1)"

definition round_double :: "real \<Rightarrow> real" where
  "round_double x =
     (if x = 0 then 0
      else let e = \<lfloor>log 2 \<bar>x\<bar>\<rfloor>; u = pow2 (e - 52)
           in sgn x * (u * of_int (round_half_even (\<bar>x\<bar> / u))))"

text \<open>
  \<open>x.toFixed(2)\<close> for a double \<open>x\<close> below \<open>10\<^sup>2\<^sup>1\<close> in magnitude, computed on the exact value
  of \<open>x\<close>: the sign, then the integer \<open>n\<close> nearest to \<open>100 x\<close> (the larger one of two)
  written with its last two digits after the point; NaN (\<open>None\<close>) gives the string \<open>NaN\<close>.
\<close>

definition digit :: "nat \<Rightarrow> char" where
  "digit n = ''0123456789'' ! n"

fun digits :: "nat \<Rightarrow> string" where
  "digits n = (if n < 10 then [digit n] else digits (n div 10) @ [digit (n mod 10)])"

definition toFixed2 :: "real option \<Rightarrow> string" where
  "toFixed2 v =
     (case v of
        None \<Rightarrow> ''NaN''
      | Some x \<Rightarrow>
          (let n = nat \<lfloor>100 * \<bar>x\<bar> + 1 / 2\<rfloor>
           in (if x < 0 then ''-'' else []) @ digits (n div 100) @ ''.'' @
              [digit (n div 10 mod 10), digit (n mod 10)]))"

text \<open>
  The object literal of the \<open>shifts.push\<close> call, from the value \<open>inLog\<close> read from \<open>lastIn\<close>
  and the OUT row (\<open>log\<close> in the source, \<open>lg\<close> here). A difference with NaN is NaN, and
  \<open>NaN > 8\<close> is false.
\<close>

definition mkShift :: "js_value \<Rightarrow> AttendanceLog \<Rightarrow> shift" where
  "mkShift inLog lg =
     (let durationMs = (case getTime inLog of Some t \<Rightarrow> Some (timestamp lg - t) | None \<Rightarrow> None);
          hrs = (case durationMs of
                   Some d \<Rightarrow> Some (round_double (real_of_int d / (1000 * 60 * 60)))
                 | None \<Rightarrow> None)
      in \<lparr>employee = employee_name lg,
          date = getTime inLog,
          inTime = getTime inLog,
          outTime = timestamp lg,
          hours = toFixed2 hrs,
          isOvertime = (case hrs of Some h \<Rightarrow> h > 8 | None \<Rightarrow> False)\<rparr>)"

text \<open>
  The two locals of \<open>calculateShifts\<close> that the loop updates: the array \<open>shifts\<close> and
  the object \<open>lastIn\<close>.
\<close>

record scan_state =
  shifts :: "shift list"
  lastIn :: js_object

text \<open>The body of the \<open>forEach\<close> callback.\<close>

definition forEach_body :: "AttendanceLog \<Rightarrow> scan_state \<Rightarrow> scan_state" where
  "forEach_body lg st =
     (if type lg = IN then
        st\<lparr>lastIn := js_set (lastIn st) (employee_id lg) lg\<rparr>
      else if type lg = OUT \<and> truthy (js_get (lastIn st) (employee_id lg)) then
        (let inLog = js_get (lastIn st) (employee_id lg)
         in st\<lparr>shifts := shifts st @ [mkShift inLog lg],
               lastIn := js_delete (lastIn st) (employee_id lg)\<rparr>)
      else st)"

text \<open>
  \<open>[...logs].sort((a, b) => t(a) - t(b))\<close>: a stable sort of a copy by ascending
  instant.
\<close>

definition sortedLogs :: "AttendanceLog list \<Rightarrow> AttendanceLog list" where
  "sortedLogs logs = sort_key timestamp logs"

definition init_state :: scan_state where
  "init_state = \<lparr>shifts = [], lastIn = \<lparr>own = Map.empty, proto = Proto_Object\<rparr>\<rparr>"

definition calculateShifts :: "AttendanceLog list \<Rightarrow> shift list" where
  "calculateShifts logs = rev (shifts (fold forEach_body (sortedLogs logs) init_state))"

text \<open>Rows for the examples: employee \<open>e\<close> clocks in or out at \<open>h\<close> hours \<open>m\<close> minutes.\<close>

definition at_time :: "int \<Rightarrow> int \<Rightarrow> int" where
  "at_time h m = (h * 60 + m) * 60 * 1000"

definition event :: "log_type \<Rightarrow> string \<Rightarrow> int \<Rightarrow> AttendanceLog" where
  "event k e t =
     \<lparr>log_id = 0, employee_id = e, employee_name = e, timestamp = t, type = k,
      latitude = 0, longitude = 0, photo_path = [], gps_status = ''OK''\<rparr>"

text \<open>
  Employee ids that name no member of \<open>Object.prototype\<close>. When every row has such an id,
  no read of \<open>lastIn\<close> finds anything but an own property.
\<close>

definition plain_ids :: "AttendanceLog list \<Rightarrow> bool" where
  "plain_ids logs = (\<forall>x \<in> set logs. employee_id x \<notin> set Object_prototype_keys)"

text \<open>
  The pairing of rows with plain ids, as the list of (pending IN row, OUT row) in the order
  of the \<open>push\<close> calls: the scan of \<open>forEach_body\<close> on the own properties alone, keeping
  the two rows of every pushed object instead of the object.
\<close>

fun pairs :: "(string \<rightharpoonup> AttendanceLog) \<Rightarrow> AttendanceLog list \<Rightarrow> (AttendanceLog \<times> AttendanceLog) list" where
  "pairs m [] = []"
| "pairs m (lg # logs) =
     (if type lg = IN then pairs (m(employee_id lg \<mapsto> lg)) logs
      else (case m (employee_id lg) of
              Some inLog \<Rightarrow> (inLog, lg) # pairs (m(employee_id lg := None)) logs
            | None \<Rightarrow> pairs m logs))"

definition pairings :: "AttendanceLog list \<Rightarrow> (AttendanceLog \<times> AttendanceLog) list" where
  "pairings logs = pairs Map.empty (sortedLogs logs)"

text \<open>Every pending entry is an IN row filed under its own employee id.\<close>

definition pending_ok :: "(string \<rightharpoonup> AttendanceLog) \<Rightarrow> bool" where
  "pending_ok m = (\<forall>e l. m e = Some l \<longrightarrow> employee_id l = e \<and> type l = IN)"

section \<open>The shift calculation on a store\<close>

text \<open>
  For the effect of \<open>calculateShifts\<close> on its input, arrays and row objects live in a
  store and are named by references: \<open>arrays\<close> gives the elements of an array, which are
  references to row objects, \<open>objects\<close> the fields of a row object, and every array
  reference below \<open>next_ref\<close> is in use. The state \<open>logs\<close> of the component is one such
  array.
\<close>

type_synonym ref = nat

record heap =
  arrays :: "ref \<Rightarrow> ref list"
  objects :: "ref \<Rightarrow> AttendanceLog"
  next_ref :: ref

text \<open>\<open>[...logs]\<close>: a new array with the elements of \<open>logs\<close>, the same row objects.\<close>

definition spread :: "heap \<Rightarrow> ref \<Rightarrow> ref \<times> heap" where
  "spread h a =
     (next_ref h, h\<lparr>arrays := (arrays h)(next_ref h := arrays h a), next_ref := Suc (next_ref h)\<rparr>)"

text \<open>
  \<open>Array.prototype.sort\<close> with the comparator of the source: it reorders the array it is
  called on, stably, by ascending instant of the rows its elements refer to.
\<close>

definition sort_in_place :: "heap \<Rightarrow> ref \<Rightarrow> heap" where
  "sort_in_place h a =
     h\<lparr>arrays := (arrays h)(a := sort_key (\<lambda>r. timestamp (objects h r)) (arrays h a))\<rparr>"

text \<open>
  The loop on references: \<open>lastIn\<close> keeps references to rows, as own properties and as its
  prototype, and the fields of a row are read from the store. The loop has no assignment to
  a row or to an array of the store; \<open>shifts\<close> and \<open>lastIn\<close> are locals of the call.
\<close>

datatype prototype_ref = Proto_Object_ref | Proto_Ref ref

record ref_object =
  own_r :: "string \<rightharpoonup> ref"
  proto_r :: prototype_ref

record ref_state =
  shifts_r :: "shift list"
  lastIn_r :: ref_object

definition get_ref :: "heap \<Rightarrow> ref_object \<Rightarrow> string \<Rightarrow> js_value" where
  "get_ref h obj k =
     (if k = ''__proto__'' then
        (case proto_r obj of
           Proto_Object_ref \<Rightarrow> ObjectPrototype | Proto_Ref r \<Rightarrow> Row (objects h r))
      else
        (case own_r obj k of
           Some r \<Rightarrow> Row (objects h r)
         | None \<Rightarrow>
             (case proto_r obj of
                Proto_Object_ref \<Rightarrow> Object_prototype_get k
              | Proto_Ref r \<Rightarrow>
                  (case row_get (objects h r) k of
                     Some v \<Rightarrow> v | None \<Rightarrow> Object_prototype_get k))))"

definition set_ref :: "ref_object \<Rightarrow> string \<Rightarrow> ref \<Rightarrow> ref_object" where
  "set_ref obj k r =
     (if k = ''__proto__'' then obj\<lparr>proto_r := Proto_Ref r\<rparr>
      else obj\<lparr>own_r := (own_r obj)(k \<mapsto> r)\<rparr>)"

definition delete_ref :: "ref_object \<Rightarrow> string \<Rightarrow> ref_object" where
  "delete_ref obj k = obj\<lparr>own_r := (own_r obj)(k := None)\<rparr>"

definition forEach_body_heap :: "heap \<Rightarrow> ref \<Rightarrow> ref_state \<Rightarrow> ref_state" where
  "forEach_body_heap h r st =
     (let lg = objects h r in
      if type lg = IN then
        st\<lparr>lastIn_r := set_ref (lastIn_r st) (employee_id lg) r\<rparr>
      else if type lg = OUT \<and> truthy (get_ref h (lastIn_r st) (employee_id lg)) then
        (let inLog = get_ref h (lastIn_r st) (employee_id lg)
         in st\<lparr>shifts_r := shifts_r st @ [mkShift inLog lg],
               lastIn_r := delete_ref (lastIn_r st) (employee_id lg)\<rparr>)
      else st)"

definition init_ref_state :: ref_state where
  "init_ref_state = \<lparr>shifts_r = [], lastIn_r = \<lparr>own_r = Map.empty, proto_r = Proto_Object_ref\<rparr>\<rparr>"

definition calculateShifts_heap :: "heap \<Rightarrow> ref \<Rightarrow> shift list \<times> heap" where
  "calculateShifts_heap h logs =
     (let (sorted, h1) = spread h logs;
          h2 = sort_in_place h1 sorted;
          st = fold (forEach_body_heap h2) (arrays h2 sorted) init_ref_state
      in (rev (shifts_r st), h2))"

text \<open>The state of the loop on references, with every reference replaced by the row it
  refers to in the store.\<close>

definition deref_object :: "heap \<Rightarrow> ref_object \<Rightarrow> js_object" where
  "deref_object h obj =
     \<lparr>own = map_option (objects h) \<circ> own_r obj,
      proto = (case proto_r obj of
                 Proto_Object_ref \<Rightarrow> Proto_Object | Proto_Ref r \<Rightarrow> Proto_Row (objects h r))\<rparr>"

definition deref_state :: "heap \<Rightarrow> ref_state \<Rightarrow> scan_state" where
  "deref_state h st = \<lparr>shifts = shifts_r st, lastIn = deref_object h (lastIn_r st)\<rparr>"

text \<open>
  A store for the examples: the array \<open>logs\<close> at reference 0 lists an OUT row of 17:00
  before the IN row of 09:00.
\<close>

definition example_heap :: heap where
  "example_heap =
     \<lparr>arrays = (\<lambda>_. [])(0 := [0, 1]),
      objects = (\<lambda>_. event IN [] 0)
        (0 := event OUT ''E1'' (at_time 17 0), 1 := event IN ''E1'' (at_time 9 0)),
      next_ref = 1\<rparr>"

section \<open>Geofence\<close>

text \<open>
  Coordinates in decimal degrees (\<open>{ lat, lng }\<close>) and the three values of \<open>gpsStatus\<close>
  (\<open>'OK'\<close>, \<open>'Out of Range'\<close>, \<open>'Searching'\<close>). JavaScript numbers are taken as real
  numbers: rounding and NaN are outside the model.
\<close>

record coords =
  lat :: real
  lng :: real

datatype gps_status = OK | Out_of_Range | Searching

definition OFFICE_COORDS :: coords where
  "OFFICE_COORDS = \<lparr>lat = 51.5074, lng = - 0.1278\<rparr>"

definition GEOFENCE_RADIUS :: real where
  "GEOFENCE_RADIUS = 200"

text \<open>\<open>Math.atan2(y, x)\<close> on real numbers: the angle of the point \<open>(x, y)\<close>, 0 at the origin.\<close>

definition atan2 :: "real \<Rightarrow> real \<Rightarrow> real" where
  "atan2 y x =
     (if 0 < x then arctan (y / x)
      else if x < 0 then (if 0 \<le> y then arctan (y / x) + pi else arctan (y / x) - pi)
      else if 0 < y then pi / 2
      else if y < 0 then - pi / 2
      else 0)"

text \<open>The constant \<open>a\<close> of \<open>getDistance\<close>, from the four angles in degrees.\<close>

definition haversine_term :: "real \<Rightarrow> real \<Rightarrow> real \<Rightarrow> real \<Rightarrow> real" where
  "haversine_term lat1 lon1 lat2 lon2 =
     (let \<phi>1 = lat1 * pi / 180;
          \<phi>2 = lat2 * pi / 180;
          \<Delta>\<phi> = (lat2 - lat1) * pi / 180;
          \<Delta>lam = (lon2 - lon1) * pi / 180
      in sin (\<Delta>\<phi> / 2) * sin (\<Delta>\<phi> / 2) +
         cos \<phi>1 * cos \<phi>2 * sin (\<Delta>lam / 2) * sin (\<Delta>lam / 2))"

text \<open>
  \<open>getDistance\<close>: the distance in metres between two points. Both arguments of
  \<open>Math.sqrt\<close> are non-negative (\<open>haversine_term_range\<close> below), where the square root of
  HOL and the one of JavaScript agree.
\<close>

definition getDistance :: "real \<Rightarrow> real \<Rightarrow> real \<Rightarrow> real \<Rightarrow> real" where
  "getDistance lat1 lon1 lat2 lon2 =
     (let R = 6371000;
          a = haversine_term lat1 lon1 lat2 lon2;
          c = 2 * atan2 (sqrt a) (sqrt (1 - a))
      in R * c)"

text \<open>
  The state of \<open>ClockView\<close> that the geolocation request updates: \<open>location\<close>, null until a
  position arrives, and \<open>gpsStatus\<close>, with their initial values. The two callbacks of
  \<open>getCurrentPosition\<close> are \<open>on_position\<close> (a position arrived) and \<open>on_error\<close> (the request
  failed).
\<close>

record geo_state =
  location :: "coords option"
  gpsStatus :: gps_status

definition initial_geo :: geo_state where
  "initial_geo = \<lparr>location = None, gpsStatus = Searching\<rparr>"

definition on_position :: "coords \<Rightarrow> geo_state \<Rightarrow> geo_state" where
  "on_position c st =
     (let dist = getDistance (lat c) (lng c) (lat OFFICE_COORDS) (lng OFFICE_COORDS)
      in st\<lparr>location := Some c,
            gpsStatus := (if dist \<le> GEOFENCE_RADIUS then OK else Out_of_Range)\<rparr>)"

definition on_error :: "geo_state \<Rightarrow> geo_state" where
  "on_error st = st\<lparr>gpsStatus := Out_of_Range\<rparr>"

text \<open>
  The great-circle distance by the haversine formula on a sphere of radius \<open>R\<close>, as the
  specification names it, for comparison with \<open>getDistance\<close>:
  \<open>2 R arcsin (sqrt (hav (\<phi>2 - \<phi>1) + cos \<phi>1 cos \<phi>2 hav (l2 - l1)))\<close> with
  \<open>hav \<theta> = sin\<^sup>2 (\<theta> / 2)\<close>.
\<close>

definition spec_haversine_distance :: "real \<Rightarrow> coords \<Rightarrow> coords \<Rightarrow> real" where
  "spec_haversine_distance R p q =
     (let hav = (\<lambda>\<theta>. (sin (\<theta> / 2))\<^sup>2);
          \<phi>1 = lat p * pi / 180;
          \<phi>2 = lat q * pi / 180;
          l1 = lng p * pi / 180;
          l2 = lng q * pi / 180
      in 2 * R * arcsin (sqrt (hav (\<phi>2 - \<phi>1) + cos \<phi>1 * cos \<phi>2 * hav (l2 - l1))))"

section \<open>The geolocation callbacks on JavaScript numbers\<close>

text \<open>
  The coordinates that the browser reports are JavaScript numbers, which may be NaN. Here a
  number is a real number or NaN (\<open>None\<close>); an arithmetic operation or a function of
  \<open>Math\<close> with a NaN operand gives NaN, \<open>Math.sqrt\<close> of a negative number gives NaN, and
  a comparison with NaN is false. Infinities and rounding stay outside the model.
\<close>

type_synonym number = "real option"

definition js_op1 :: "(real \<Rightarrow> real) \<Rightarrow> number \<Rightarrow> number" where
  "js_op1 f v = (case v of Some x \<Rightarrow> Some (f x) | None \<Rightarrow> None)"

definition js_op2 :: "(real \<Rightarrow> real \<Rightarrow> real) \<Rightarrow> number \<Rightarrow> number \<Rightarrow> number" where
  "js_op2 f v w =
     (case v of
        Some x \<Rightarrow> (case w of Some y \<Rightarrow> Some (f x y) | None \<Rightarrow> None)
      | None \<Rightarrow> None)"

definition js_sqrt :: "number \<Rightarrow> number" where
  "js_sqrt v = (case v of Some x \<Rightarrow> (if x < 0 then None else Some (sqrt x)) | None \<Rightarrow> None)"

definition js_le :: "number \<Rightarrow> number \<Rightarrow> bool" where
  "js_le v w =
     (case v of
        Some x \<Rightarrow> (case w of Some y \<Rightarrow> x \<le> y | None \<Rightarrow> False)
      | None \<Rightarrow> False)"

text \<open>\<open>getDistance\<close> once more, operation by operation, on numbers that may be NaN.\<close>

definition getDistance_js :: "number \<Rightarrow> number \<Rightarrow> number \<Rightarrow> number \<Rightarrow> number" where
  "getDistance_js lat1 lon1 lat2 lon2 =
     (let R = Some 6371000;
          \<phi>1 = js_op2 (/) (js_op2 (*) lat1 (Some pi)) (Some 180);
          \<phi>2 = js_op2 (/) (js_op2 (*) lat2 (Some pi)) (Some 180);
          \<Delta>\<phi> = js_op2 (/) (js_op2 (*) (js_op2 (-) lat2 lat1) (Some pi)) (Some 180);
          \<Delta>lam = js_op2 (/) (js_op2 (*) (js_op2 (-) lon2 lon1) (Some pi)) (Some 180);
          s\<phi> = js_op1 sin (js_op2 (/) \<Delta>\<phi> (Some 2));
          slam = js_op1 sin (js_op2 (/) \<Delta>lam (Some 2));
          a = js_op2 (+) (js_op2 (*) s\<phi> s\<phi>)
                (js_op2 (*) (js_op2 (*) (js_op2 (*) (js_op1 cos \<phi>1) (js_op1 cos \<phi>2)) slam) slam);
          c = js_op2 (*) (Some 2) (js_op2 atan2 (js_sqrt a) (js_sqrt (js_op2 (-) (Some 1) a)))
      in js_op2 (*) R c)"

text \<open>
  The state of \<open>ClockView\<close> again, with coordinates that may be NaN, and the two callbacks of
  \<open>getCurrentPosition\<close> with a result that is either an exception thrown (\<open>Inl\<close>) or the new
  state (\<open>Inr\<close>). Neither callback has a statement that throws: the success callback
  reads \<open>pos.coords.latitude\<close> and \<open>pos.coords.longitude\<close> of the position it is given,
  calls \<open>getDistance\<close> and sets \<open>location\<close> and \<open>gpsStatus\<close>; the error callback sets
  \<open>gpsStatus\<close>.
\<close>

record js_coords =
  js_lat :: number
  js_lng :: number

record clock_state =
  location_js :: "js_coords option"
  gpsStatus_js :: gps_status

datatype thrown = Thrown string

definition initial_clock :: clock_state where
  "initial_clock = \<lparr>location_js = None, gpsStatus_js = Searching\<rparr>"

definition position_callback :: "js_coords \<Rightarrow> clock_state \<Rightarrow> thrown + clock_state" where
  "position_callback c st =
     (let dist = getDistance_js (js_lat c) (js_lng c)
                   (Some (lat OFFICE_COORDS)) (Some (lng OFFICE_COORDS))
      in Inr (st\<lparr>location_js := Some c,
                 gpsStatus_js :=
                   (if js_le dist (Some GEOFENCE_RADIUS) then OK else Out_of_Range)\<rparr>))"

definition error_callback :: "clock_state \<Rightarrow> thrown + clock_state" where
  "error_callback st = Inr (st\<lparr>gpsStatus_js := Out_of_Range\<rparr>)"

text \<open>The callbacks that run, in order; a thrown exception ends the run.\<close>

datatype geo_event = Position js_coords | PositionError

fun geo_step :: "geo_event \<Rightarrow> clock_state \<Rightarrow> thrown + clock_state" where
  "geo_step (Position c) st = position_callback c st"
| "geo_step PositionError st = error_callback st"

fun geo_run :: "geo_event list \<Rightarrow> clock_state \<Rightarrow> thrown + clock_state" where
  "geo_run [] st = Inr st"
| "geo_run (ev # evs) st =
     (case geo_step ev st of Inl e \<Rightarrow> Inl e | Inr st' \<Rightarrow> geo_run evs st')"

section \<open>Rounding to a double\<close>

lemma pow2_powr: "pow2 k = 2 powr (of_int k)"
  by (simp add: pow2_def powr_real_of_int inverse_eq_divide)

lemma round_double_eval:
  assumes "0 < x" "pow2 e \<le> x" "x < pow2 (e + 1)"
  shows "round_double x = pow2 (e - 52) * of_int (round_half_even (x / pow2 (e - 52)))"
proof -
  have "\<lfloor>log 2 x\<rfloor> = e"
    using assms by (simp add: floor_log_eq_powr_iff pow2_powr)
  with assms(1) show ?thesis
    by (simp add: round_double_def Let_def)
qed

lemma round_double_8: "round_double 8 = 8"
  by (subst round_double_eval[where e = 3]) (simp_all add: pow2_def round_half_even_def)

lemma round_double_19_2: "round_double (19 / 2) = 19 / 2"
  by (subst round_double_eval[where e = 3]) (simp_all add: pow2_def round_half_even_def)

lemma round_double_28801_3600: "round_double (28801 / 3600) = 4503756002357557 / 562949953421312"
  by (subst round_double_eval[where e = 3]) (simp_all add: pow2_def round_half_even_def)

lemma round_double_0: "round_double 0 = 0"
  by (simp add: round_double_def)

lemma round_double_7: "round_double 7 = 7"
  by (subst round_double_eval[where e = 2]) (simp_all add: pow2_def round_half_even_def)

lemma pow2_pos: "0 < pow2 k"
  by (simp add: pow2_def)

lemma pow2_mono: "a \<le> b \<Longrightarrow> pow2 a \<le> pow2 b"
  by (simp add: pow2_powr)

lemma pow2_add: "pow2 (a + b) = pow2 a * pow2 b"
  by (simp add: pow2_powr powr_add)

lemma pow2_less_iff: "(pow2 a < pow2 b) = (a < b)"
  by (simp add: pow2_powr)

lemma pow2_numeral: "pow2 3 = 8" "pow2 4 = 16" "pow2 52 = 2 ^ 52" "pow2 53 = 2 ^ 53"
  by (simp_all add: pow2_def)

lemma round_half_even_ge: "of_int m \<le> y \<Longrightarrow> m \<le> round_half_even y"
proof -
  assume "of_int m \<le> y"
  then have "m \<le> \<lfloor>y\<rfloor>" by (simp add: le_floor_iff)
  then show ?thesis by (simp add: round_half_even_def Let_def)
qed

lemma round_half_even_le: "y \<le> of_int m \<Longrightarrow> round_half_even y \<le> m"
proof (cases "y = of_int m")
  case True
  then show ?thesis by (simp add: round_half_even_def Let_def)
next
  case False
  assume "y \<le> of_int m"
  with False have "y < of_int m" by simp
  then have "\<lfloor>y\<rfloor> < m" by (simp add: floor_less_iff)
  then show ?thesis by (simp add: round_half_even_def Let_def)
qed

lemma log2_bounds:
  assumes "0 < x"
  shows "pow2 \<lfloor>log 2 x\<rfloor> \<le> x" "x < pow2 (\<lfloor>log 2 x\<rfloor> + 1)"
  using floor_log_eq_powr_iff[of x 2 "\<lfloor>log 2 x\<rfloor>"] assms by (simp_all add: pow2_powr)

lemma round_double_pos_bounds:
  assumes "0 < x" "pow2 e \<le> x" "x < pow2 (e + 1)"
  shows "pow2 e \<le> round_double x" "round_double x \<le> pow2 (e + 1)"
proof -
  let ?u = "pow2 (e - 52)"
  have u: "0 < ?u" by (rule pow2_pos)
  have e: "pow2 e = ?u * 2 ^ 52"
    using pow2_add[of "e - 52" 52] by (simp only: pow2_numeral diff_add_cancel)
  have "e - 52 + 53 = e + 1" by simp
  then have e1: "pow2 (e + 1) = ?u * 2 ^ 53"
    using pow2_add[of "e - 52" 53] by (simp only: pow2_numeral)
  have "real_of_int (2 ^ 52) \<le> x / ?u"
    using assms(2) u by (simp add: e pos_le_divide_eq mult.commute)
  then have "2 ^ 52 \<le> round_half_even (x / ?u)" by (rule round_half_even_ge)
  then have "real_of_int (2 ^ 52) \<le> real_of_int (round_half_even (x / ?u))"
    by (simp only: of_int_le_iff)
  then have lo: "2 ^ 52 \<le> real_of_int (round_half_even (x / ?u))" by simp
  have "x / ?u \<le> real_of_int (2 ^ 53)"
    using assms(3) u by (simp add: e1 pos_divide_le_eq mult.commute)
  then have "round_half_even (x / ?u) \<le> 2 ^ 53" by (rule round_half_even_le)
  then have "real_of_int (round_half_even (x / ?u)) \<le> real_of_int (2 ^ 53)"
    by (simp only: of_int_le_iff)
  then have hi: "real_of_int (round_half_even (x / ?u)) \<le> 2 ^ 53" by simp
  have r: "round_double x = ?u * of_int (round_half_even (x / ?u))"
    by (rule round_double_eval[OF assms])
  from mult_left_mono[OF lo less_imp_le[OF u]] show "pow2 e \<le> round_double x"
    by (simp only: r e)
  from mult_left_mono[OF hi less_imp_le[OF u]] show "round_double x \<le> pow2 (e + 1)"
    by (simp only: r e1)
qed

lemma round_double_nonneg: "0 \<le> x \<Longrightarrow> 0 \<le> round_double x"
proof (cases "x = 0")
  case True
  then show ?thesis by (simp add: round_double_def)
next
  case False
  assume "0 \<le> x"
  with False have x: "0 < x" by simp
  from round_double_pos_bounds(1)[OF x log2_bounds[OF x]] pow2_pos[of "\<lfloor>log 2 x\<rfloor>"]
  show ?thesis by linarith
qed

lemma round_double_nonpos: "x \<le> 0 \<Longrightarrow> round_double x \<le> 0"
proof (cases "x = 0")
  case True
  then show ?thesis by (simp add: round_double_def)
next
  case False
  assume "x \<le> 0"
  with False have x: "x < 0" by simp
  let ?u = "pow2 (\<lfloor>log 2 \<bar>x\<bar>\<rfloor> - 52)"
  have "0 \<le> round_half_even (\<bar>x\<bar> / ?u)"
    by (rule round_half_even_ge) (simp add: pow2_pos less_imp_le)
  then have "0 \<le> ?u * of_int (round_half_even (\<bar>x\<bar> / ?u))"
    using pow2_pos[of "\<lfloor>log 2 \<bar>x\<bar>\<rfloor> - 52"] by simp
  with x show ?thesis
    by (simp add: round_double_def Let_def del: of_int_0_le_iff)
qed

lemma overtime_exact:
  "(8 < round_double (real_of_int d / (1000 * 60 * 60))) = (8 * (1000 * 60 * 60) < d)"
proof -
  let ?x = "real_of_int d / (1000 * 60 * 60)"
  consider "d \<le> 0" | "0 < d" "d < 28800000" | "d = 28800000" | "28800000 < d" by linarith
  then show ?thesis
  proof cases
    case 1
    then have "?x \<le> 0" by simp
    from round_double_nonpos[OF this] 1 show ?thesis by simp
  next
    case 2
    then have x: "0 < ?x" and x8: "?x < 8" by simp_all
    define e where "e = \<lfloor>log 2 ?x\<rfloor>"
    have lo: "pow2 e \<le> ?x" and hi: "?x < pow2 (e + 1)"
      unfolding e_def by (rule log2_bounds[OF x])+
    from lo x8 have "pow2 e < pow2 3" by (simp only: pow2_numeral)
    then have "e + 1 \<le> 3" by (simp add: pow2_less_iff)
    then have "pow2 (e + 1) \<le> pow2 3" by (rule pow2_mono)
    with round_double_pos_bounds(2)[OF x lo hi] have "round_double ?x \<le> 8"
      by (simp only: pow2_numeral)
    with 2 show ?thesis by simp
  next
    case 3
    then have "?x = 8" by simp
    with 3 show ?thesis by (simp add: round_double_8)
  next
    case 4
    then have d: "28800001 \<le> d" by simp
    then have x: "0 < ?x" and x8: "8 < ?x" by simp_all
    define e where "e = \<lfloor>log 2 ?x\<rfloor>"
    have lo: "pow2 e \<le> ?x" and hi: "?x < pow2 (e + 1)"
      unfolding e_def by (rule log2_bounds[OF x])+
    have "8 < round_double ?x"
    proof (cases "e = 3")
      case True
      with lo hi have b: "pow2 3 \<le> ?x" "?x < pow2 (3 + 1)" by simp_all
      have "real_of_int (2 ^ 52 + 1) \<le> 28800001 / 3600000 / pow2 (3 - 52)"
        by (simp add: pow2_def)
      also have "\<dots> \<le> ?x / pow2 (3 - 52)"
        using d by (simp add: pow2_def)
      finally have "2 ^ 52 + 1 \<le> round_half_even (?x / pow2 (3 - 52))"
        by (rule round_half_even_ge)
      then have "real_of_int (2 ^ 52 + 1) \<le> real_of_int (round_half_even (?x / pow2 (3 - 52)))"
        by (simp only: of_int_le_iff)
      then have "pow2 (3 - 52) * real_of_int (2 ^ 52 + 1)
                 \<le> pow2 (3 - 52) * real_of_int (round_half_even (?x / pow2 (3 - 52)))"
        using pow2_pos[of "3 - 52"] by (simp only: mult_le_cancel_left_pos)
      moreover have "8 < pow2 (3 - 52) * real_of_int (2 ^ 52 + 1)"
        by (simp add: pow2_def)
      ultimately show ?thesis
        by (simp only: round_double_eval[OF x b])
    next
      case False
      from hi x8 have "pow2 3 < pow2 (e + 1)" by (simp only: pow2_numeral)
      then have "3 < e + 1" by (simp add: pow2_less_iff)
      with False have "4 \<le> e" by simp
      then have "pow2 4 \<le> pow2 e" by (rule pow2_mono)
      with round_double_pos_bounds(1)[OF x lo hi] show ?thesis
        by (simp only: pow2_numeral)
    qed
    with 4 show ?thesis by simp
  qed
qed

lemma overtime_hours:
  "(8 < round_double (real_of_int d / (1000 * 60 * 60))) = (8 < real_of_int d / (1000 * 60 * 60))"
proof -
  have "(8 < real_of_int d / (1000 * 60 * 60)) = (real_of_int (8 * (1000 * 60 * 60)) < real_of_int d)"
    by simp
  also have "\<dots> = (8 * (1000 * 60 * 60) < d)"
    by (simp only: of_int_less_iff)
  finally show ?thesis
    by (simp only: overtime_exact)
qed

section \<open>The loop\<close>

lemma type_not_IN [simp]: "(type lg \<noteq> IN) = (type lg = OUT)"
  by (cases "type lg") simp_all

lemma forEach_body_IN:
  "type lg = IN \<Longrightarrow> forEach_body lg st = st\<lparr>lastIn := js_set (lastIn st) (employee_id lg) lg\<rparr>"
  by (simp add: forEach_body_def)

lemma forEach_body_OUT_found:
  "type lg = OUT \<Longrightarrow> truthy (js_get (lastIn st) (employee_id lg)) \<Longrightarrow>
   forEach_body lg st =
     st\<lparr>shifts := shifts st @ [mkShift (js_get (lastIn st) (employee_id lg)) lg],
        lastIn := js_delete (lastIn st) (employee_id lg)\<rparr>"
  by (simp add: forEach_body_def)

lemma forEach_body_OUT_orphan:
  "type lg = OUT \<Longrightarrow> \<not> truthy (js_get (lastIn st) (employee_id lg)) \<Longrightarrow>
   forEach_body lg st = st"
  by (simp add: forEach_body_def)

lemma forEach_body_cases:
  obtains (IN) "type lg = IN" "forEach_body lg st = st\<lparr>lastIn := js_set (lastIn st) (employee_id lg) lg\<rparr>"
  | (found) "type lg = OUT" "truthy (js_get (lastIn st) (employee_id lg))"
      "forEach_body lg st =
         st\<lparr>shifts := shifts st @ [mkShift (js_get (lastIn st) (employee_id lg)) lg],
            lastIn := js_delete (lastIn st) (employee_id lg)\<rparr>"
  | (orphan) "type lg = OUT" "\<not> truthy (js_get (lastIn st) (employee_id lg))"
      "forEach_body lg st = st"
  using forEach_body_IN forEach_body_OUT_found forEach_body_OUT_orphan
  by (cases "type lg") blast+

lemma outTime_mkShift: "outTime (mkShift v lg) = timestamp lg"
  by (simp add: mkShift_def Let_def)

text \<open>Shifts are pushed in the order of the scan, each with the instant of its OUT row.\<close>

lemma fold_forEach_body_out_sorted:
  "sorted (map timestamp logs) \<Longrightarrow> sorted (map outTime (shifts st)) \<Longrightarrow>
   \<forall>s \<in> set (shifts st). \<forall>x \<in> set logs. outTime s \<le> timestamp x \<Longrightarrow>
   sorted (map outTime (shifts (fold forEach_body logs st)))"
proof (induction logs arbitrary: st)
  case Nil
  then show ?case by simp
next
  case (Cons lg logs)
  from Cons.prems(1) have sorted_tl: "sorted (map timestamp logs)"
    and le_tl: "\<forall>x \<in> set logs. timestamp lg \<le> timestamp x" by simp_all
  from Cons.prems(3) have old_lg: "\<forall>s \<in> set (shifts st). outTime s \<le> timestamp lg"
    and old_tl: "\<forall>s \<in> set (shifts st). \<forall>x \<in> set logs. outTime s \<le> timestamp x" by simp_all
  have "sorted (map outTime (shifts (forEach_body lg st))) \<and>
        (\<forall>s \<in> set (shifts (forEach_body lg st)). \<forall>x \<in> set logs. outTime s \<le> timestamp x)"
  proof (cases lg st rule: forEach_body_cases)
    case IN
    with Cons.prems(2) old_tl show ?thesis by simp
  next
    case found
    with Cons.prems(2) old_lg old_tl le_tl show ?thesis
      by (simp add: sorted_append outTime_mkShift)
  next
    case orphan
    with Cons.prems(2) old_tl show ?thesis by simp
  qed
  then have "sorted (map outTime (shifts (fold forEach_body logs (forEach_body lg st))))"
    by (intro Cons.IH[OF sorted_tl]) simp_all
  then show ?case by simp
qed

section \<open>Rows with plain ids\<close>

lemma js_get_plain:
  "proto obj = Proto_Object \<Longrightarrow> k \<notin> set Object_prototype_keys \<Longrightarrow>
   js_get obj k = (case own obj k of Some r \<Rightarrow> Row r | None \<Rightarrow> Undefined)"
  by (auto simp: js_get_def Object_prototype_keys_def Object_prototype_get_def
      split: option.splits)

lemma js_set_plain:
  "k \<notin> set Object_prototype_keys \<Longrightarrow> js_set obj k r = obj\<lparr>own := (own obj)(k \<mapsto> r)\<rparr>"
  by (auto simp: js_set_def Object_prototype_keys_def)

lemma shifts_fold_pairs:
  "proto (lastIn st) = Proto_Object \<Longrightarrow> plain_ids logs \<Longrightarrow>
   shifts (fold forEach_body logs st) =
   shifts st @ map (\<lambda>(i, out). mkShift (Row i) out) (pairs (own (lastIn st)) logs)"
proof (induction logs arbitrary: st)
  case Nil
  show ?case by simp
next
  case (Cons lg logs)
  from Cons.prems(2) have plain: "employee_id lg \<notin> set Object_prototype_keys"
    and rest: "plain_ids logs" by (simp_all add: plain_ids_def)
  note get = js_get_plain[OF Cons.prems(1) plain]
  show ?case
  proof (cases "type lg")
    case IN
    let ?st = "forEach_body lg st"
    have own: "own (lastIn ?st) = (own (lastIn st))(employee_id lg \<mapsto> lg)"
      and pr: "proto (lastIn ?st) = Proto_Object"
      using Cons.prems(1) by (simp_all add: forEach_body_IN[OF IN] js_set_plain[OF plain])
    have sh: "shifts ?st = shifts st"
      by (simp add: forEach_body_IN[OF IN])
    from Cons.IH[OF pr rest] IN show ?thesis
      by (simp add: own sh fun_upd_def)
  next
    case OUT
    show ?thesis
    proof (cases "own (lastIn st) (employee_id lg)")
      case None
      with get have "\<not> truthy (js_get (lastIn st) (employee_id lg))" by simp
      then have "forEach_body lg st = st"
        by (rule forEach_body_OUT_orphan[OF OUT])
      with Cons.IH[OF Cons.prems(1) rest] OUT None show ?thesis by simp
    next
      case (Some inLog)
      let ?st = "forEach_body lg st"
      from Some get have found: "js_get (lastIn st) (employee_id lg) = Row inLog" by simp
      then have t: "truthy (js_get (lastIn st) (employee_id lg))" by simp
      have own: "own (lastIn ?st) = (own (lastIn st))(employee_id lg := None)"
        and pr: "proto (lastIn ?st) = Proto_Object"
        and sh: "shifts ?st = shifts st @ [mkShift (Row inLog) lg]"
        using Cons.prems(1)
        by (simp_all add: forEach_body_OUT_found[OF OUT t] js_delete_def found)
      from Cons.IH[OF pr rest] OUT Some show ?thesis
        by (simp add: own sh fun_upd_def)
    qed
  qed
qed

lemma plain_ids_sortedLogs: "plain_ids (sortedLogs logs) = plain_ids logs"
  by (simp add: plain_ids_def sortedLogs_def)

lemma calculateShifts_pairings:
  "plain_ids logs \<Longrightarrow>
   calculateShifts logs = rev (map (\<lambda>(i, out). mkShift (Row i) out) (pairings logs))"
  by (simp add: calculateShifts_def pairings_def shifts_fold_pairs plain_ids_sortedLogs
      init_state_def)

lemma pairs_members:
  "(i, out) \<in> set (pairs m logs) \<Longrightarrow>
   out \<in> set logs \<and> type out = OUT \<and> (i \<in> ran m \<or> i \<in> set logs)"
proof (induction logs arbitrary: m)
  case Nil
  then show ?case by simp
next
  case (Cons lg logs)
  show ?case
  proof (cases "type lg")
    case IN
    with Cons.prems have "(i, out) \<in> set (pairs (m(employee_id lg \<mapsto> lg)) logs)" by simp
    from Cons.IH[OF this] show ?thesis
      by (auto simp: ran_def split: if_splits)
  next
    case OUT
    show ?thesis
    proof (cases "m (employee_id lg)")
      case None
      with OUT Cons.prems have "(i, out) \<in> set (pairs m logs)" by simp
      from Cons.IH[OF this] show ?thesis by auto
    next
      case (Some inLog)
      with OUT Cons.prems consider "i = inLog" "out = lg"
        | "(i, out) \<in> set (pairs (m(employee_id lg := None)) logs)" by auto
      then show ?thesis
      proof cases
        case 1
        with Some OUT show ?thesis by (auto simp: ran_def)
      next
        case 2
        from Cons.IH[OF this] show ?thesis
          by (auto simp: ran_def split: if_splits)
      qed
    qed
  qed
qed

lemma pairs_same_employee:
  "pending_ok m \<Longrightarrow> (i, out) \<in> set (pairs m logs) \<Longrightarrow>
   employee_id i = employee_id out \<and> type i = IN"
proof (induction logs arbitrary: m)
  case Nil
  then show ?case by simp
next
  case (Cons lg logs)
  show ?case
  proof (cases "type lg")
    case IN
    with Cons.prems have mem: "(i, out) \<in> set (pairs (m(employee_id lg \<mapsto> lg)) logs)" by simp
    from Cons.prems(1) IN have "pending_ok (m(employee_id lg \<mapsto> lg))"
      by (simp add: pending_ok_def)
    from Cons.IH[OF this mem] show ?thesis .
  next
    case OUT
    show ?thesis
    proof (cases "m (employee_id lg)")
      case None
      with OUT Cons.prems have "(i, out) \<in> set (pairs m logs)" by simp
      from Cons.IH[OF Cons.prems(1) this] show ?thesis .
    next
      case (Some inLog)
      from Cons.prems(1) have ok: "pending_ok (m(employee_id lg := None))"
        by (simp add: pending_ok_def)
      from Some OUT Cons.prems(2) consider "i = inLog" "out = lg"
        | "(i, out) \<in> set (pairs (m(employee_id lg := None)) logs)" by auto
      then show ?thesis
      proof cases
        case 1
        with Some Cons.prems(1) show ?thesis by (simp add: pending_ok_def)
      next
        case 2
        from Cons.IH[OF ok this] show ?thesis .
      qed
    qed
  qed
qed

lemma pairs_time_order:
  "sorted (map timestamp logs) \<Longrightarrow>
   (\<forall>l \<in> ran m. \<forall>x \<in> set logs. timestamp l \<le> timestamp x) \<Longrightarrow>
   (i, out) \<in> set (pairs m logs) \<Longrightarrow> timestamp i \<le> timestamp out"
proof (induction logs arbitrary: m)
  case Nil
  then show ?case by simp
next
  case (Cons lg logs)
  from Cons.prems(1) have sorted_tl: "sorted (map timestamp logs)"
    and le_tl: "\<forall>x \<in> set logs. timestamp lg \<le> timestamp x" by simp_all
  from Cons.prems(2) have ran_tl: "\<forall>l \<in> ran m. \<forall>x \<in> set logs. timestamp l \<le> timestamp x"
    by simp
  show ?case
  proof (cases "type lg")
    case IN
    with Cons.prems have mem: "(i, out) \<in> set (pairs (m(employee_id lg \<mapsto> lg)) logs)" by simp
    have "\<forall>l \<in> ran (m(employee_id lg \<mapsto> lg)). \<forall>x \<in> set logs. timestamp l \<le> timestamp x"
      using ran_tl le_tl by (auto simp: ran_def split: if_splits)
    from Cons.IH[OF sorted_tl this mem] show ?thesis .
  next
    case OUT
    show ?thesis
    proof (cases "m (employee_id lg)")
      case None
      with OUT Cons.prems have "(i, out) \<in> set (pairs m logs)" by simp
      from Cons.IH[OF sorted_tl ran_tl this] show ?thesis .
    next
      case (Some inLog)
      have ran': "\<forall>l \<in> ran (m(employee_id lg := None)). \<forall>x \<in> set logs. timestamp l \<le> timestamp x"
        using ran_tl by (auto simp: ran_def split: if_splits)
      from Some OUT Cons.prems(3) consider "i = inLog" "out = lg"
        | "(i, out) \<in> set (pairs (m(employee_id lg := None)) logs)" by auto
      then show ?thesis
      proof cases
        case 1
        from Some have "inLog \<in> ran m" by (auto simp: ran_def)
        with Cons.prems(2) 1 show ?thesis by simp
      next
        case 2
        from Cons.IH[OF sorted_tl ran' this] show ?thesis .
      qed
    qed
  qed
qed

lemma pairs_out_subset: "snd ` set (pairs m logs) \<subseteq> set logs"
  using pairs_members by fastforce

lemma pairs_out_sorted:
  "sorted (map timestamp logs) \<Longrightarrow> sorted (map (timestamp \<circ> snd) (pairs m logs))"
proof (induction logs arbitrary: m)
  case Nil
  then show ?case by simp
next
  case (Cons lg logs)
  from Cons.prems have sorted_tl: "sorted (map timestamp logs)"
    and le_tl: "\<forall>x \<in> set logs. timestamp lg \<le> timestamp x" by simp_all
  show ?case
  proof (cases "type lg")
    case IN
    then show ?thesis using Cons.IH[OF sorted_tl] by simp
  next
    case OUT
    show ?thesis
    proof (cases "m (employee_id lg)")
      case None
      with OUT show ?thesis using Cons.IH[OF sorted_tl] by simp
    next
      case (Some inLog)
      have "\<forall>p \<in> set (pairs (m(employee_id lg := None)) logs). timestamp lg \<le> timestamp (snd p)"
        using pairs_out_subset le_tl by fastforce
      with Some OUT show ?thesis using Cons.IH[OF sorted_tl] by simp
    qed
  qed
qed

lemma sorted_sortedLogs: "sorted (map timestamp (sortedLogs logs))"
  by (simp add: sortedLogs_def)

lemma set_sortedLogs: "set (sortedLogs logs) = set logs"
  by (simp add: sortedLogs_def)

lemma pending_ok_empty: "pending_ok Map.empty"
  by (simp add: pending_ok_def)

lemma pairings_rows:
  assumes "(i, out) \<in> set (pairings logs)"
  shows "i \<in> set logs" and "out \<in> set logs" and "type i = IN" and "type out = OUT"
    and "employee_id i = employee_id out" and "timestamp i \<le> timestamp out"
proof -
  from assms have mem: "(i, out) \<in> set (pairs Map.empty (sortedLogs logs))"
    by (simp add: pairings_def)
  from pairs_members[OF mem] show "i \<in> set logs" "out \<in> set logs" "type out = OUT"
    by (simp_all add: set_sortedLogs)
  from pairs_same_employee[OF pending_ok_empty mem]
  show "type i = IN" "employee_id i = employee_id out" by simp_all
  from pairs_time_order[OF sorted_sortedLogs _ mem]
  show "timestamp i \<le> timestamp out" by simp
qed

lemma calculateShifts_member:
  "plain_ids logs \<Longrightarrow> s \<in> set (calculateShifts logs) \<Longrightarrow>
   \<exists>i out. (i, out) \<in> set (pairings logs) \<and> s = mkShift (Row i) out"
  by (auto simp: calculateShifts_pairings)

lemmas example_defs = calculateShifts_def sortedLogs_def forEach_body_def init_state_def
  event_def at_time_def mkShift_def js_get_def js_set_def js_delete_def
  Object_prototype_get_def Object_prototype_functions_def row_get_def toFixed2_def digit_def
  round_double_0 round_double_7 round_double_8 round_double_19_2 round_double_28801_3600

lemma sortedLogs_cong:
  assumes "mset xs = mset ys"
    and "\<forall>k. filter (\<lambda>x. timestamp x = k) xs = filter (\<lambda>x. timestamp x = k) ys"
  shows "sortedLogs xs = sortedLogs ys"
  unfolding sortedLogs_def
proof (rule properties_for_sort_key)
  show "mset (sort_key timestamp ys) = mset xs"
    using assms(1) by simp
  show "sorted (map timestamp (sort_key timestamp ys))"
    by simp
next
  fix k
  have "filter (\<lambda>x. timestamp k = timestamp x) (sort_key timestamp ys)
        = filter (\<lambda>x. timestamp x = timestamp k) (sort_key timestamp ys)"
    by (rule filter_cong) auto
  also have "\<dots> = filter (\<lambda>x. timestamp x = timestamp k) ys"
    by (rule sort_key_stable)
  also have "\<dots> = filter (\<lambda>x. timestamp x = timestamp k) xs"
    using assms(2) by simp
  also have "\<dots> = filter (\<lambda>x. timestamp k = timestamp x) xs"
    by (rule filter_cong) auto
  finally show "filter (\<lambda>x. timestamp k = timestamp x) (sort_key timestamp ys)
        = filter (\<lambda>x. timestamp k = timestamp x) xs" .
qed

lemma filter_key_short:
  "distinct (map f xs) \<Longrightarrow> length (filter (\<lambda>x. f x = k) xs) \<le> 1"
proof (induction xs)
  case Nil
  then show ?case by simp
next
  case (Cons x xs)
  show ?case
  proof (cases "f x = k")
    case True
    with Cons.prems have "\<forall>y \<in> set xs. f y \<noteq> k" by (auto simp: image_iff)
    then have "filter (\<lambda>x. f x = k) xs = []" by (simp add: filter_empty_conv)
    with True show ?thesis by simp
  next
    case False
    with Cons show ?thesis by simp
  qed
qed

lemma short_mset_eq:
  "mset as = mset bs \<Longrightarrow> length as \<le> 1 \<Longrightarrow> as = bs"
  by (cases as; cases bs) (auto dest: mset_eq_length)

lemma distinct_keys_filter_eq:
  assumes "mset xs = mset ys" and "distinct (map timestamp xs)"
  shows "filter (\<lambda>x. timestamp x = k) xs = filter (\<lambda>x. timestamp x = k) ys"
proof (rule short_mset_eq)
  show "mset (filter (\<lambda>x. timestamp x = k) xs) = mset (filter (\<lambda>x. timestamp x = k) ys)"
    by (simp add: assms(1))
  show "length (filter (\<lambda>x. timestamp x = k) xs) \<le> 1"
    by (rule filter_key_short[OF assms(2)])
qed



lemma digit_not_minus: "d < 10 \<Longrightarrow> digit d \<noteq> CHR ''-''"
proof -
  assume "d < 10"
  then have "d \<in> {0, 1, 2, 3, 4, 5, 6, 7, 8, 9}" by auto
  then show ?thesis by (auto simp: digit_def)
qed

lemma hd_digits: "digits n \<noteq> [] \<and> hd (digits n) \<noteq> CHR ''-''"
proof (induction n rule: digits.induct)
  case (1 n)
  show ?case
  proof (cases "n < 10")
    case True
    then show ?thesis by (simp add: digit_not_minus)
  next
    case False
    with 1 have "digits (n div 10) \<noteq> [] \<and> hd (digits (n div 10)) \<noteq> CHR ''-''" by simp
    with False show ?thesis by (subst digits.simps) simp
  qed
qed

lemma toFixed2_nonneg: "0 \<le> x \<Longrightarrow> hd (toFixed2 (Some x)) \<noteq> CHR ''-''"
  using hd_digits by (simp add: toFixed2_def Let_def)

lemma plain_ids_example [simp]:
  "''E1'' \<notin> set Object_prototype_keys" "''E2'' \<notin> set Object_prototype_keys"
  by (simp_all add: Object_prototype_keys_def Object_prototype_functions_def)

lemma forEach_body_own_other:
  assumes "employee_id x \<noteq> e"
  shows "forEach_body x (st\<lparr>lastIn := (lastIn st)\<lparr>own := (own (lastIn st))(e := v)\<rparr>\<rparr>) =
         (forEach_body x st)\<lparr>lastIn := (lastIn (forEach_body x st))
            \<lparr>own := (own (lastIn (forEach_body x st)))(e := v)\<rparr>\<rparr>"
proof -
  let ?st = "st\<lparr>lastIn := (lastIn st)\<lparr>own := (own (lastIn st))(e := v)\<rparr>\<rparr>"
  have get': "js_get ((lastIn st)\<lparr>own := (own (lastIn st))(e := v)\<rparr>) (employee_id x)
              = js_get (lastIn st) (employee_id x)"
    using assms by (simp add: js_get_def split: option.splits)
  then have get: "js_get (lastIn ?st) (employee_id x) = js_get (lastIn st) (employee_id x)"
    by simp
  show ?thesis
  proof (cases x st rule: forEach_body_cases)
    case IN
    then show ?thesis
      using assms by (simp add: forEach_body_IN js_set_def fun_upd_twist)
  next
    case found
    from found(2) have "truthy (js_get (lastIn ?st) (employee_id x))" by (simp add: get')
    from forEach_body_OUT_found[OF found(1) this] found(3) show ?thesis
      using assms by (simp add: get' js_delete_def fun_upd_twist)
  next
    case orphan
    from orphan(2) have "\<not> truthy (js_get (lastIn ?st) (employee_id x))" by (simp add: get')
    from forEach_body_OUT_orphan[OF orphan(1) this] orphan(3) show ?thesis
      by simp
  qed
qed

lemma fold_forEach_body_own_other:
  "\<forall>x \<in> set mid. employee_id x \<noteq> e \<Longrightarrow>
   fold forEach_body mid (st\<lparr>lastIn := (lastIn st)\<lparr>own := (own (lastIn st))(e := v)\<rparr>\<rparr>) =
   (fold forEach_body mid st)\<lparr>lastIn := (lastIn (fold forEach_body mid st))
      \<lparr>own := (own (lastIn (fold forEach_body mid st)))(e := v)\<rparr>\<rparr>"
proof (induction mid arbitrary: st)
  case Nil
  show ?case by simp
next
  case (Cons x mid)
  from Cons.prems have ne: "employee_id x \<noteq> e" and rest: "\<forall>y \<in> set mid. employee_id y \<noteq> e"
    by simp_all
  show ?case
    by (simp only: fold_simps forEach_body_own_other[OF ne] Cons.IH[OF rest])
qed

text \<open>
  For a key other than \<open>__proto__\<close>, an IN row that is superseded before any other row of
  its employee is scanned leaves no trace in the state of the loop.
\<close>

lemma superseded_in_leaves_no_trace:
  assumes i1: "type i1 = IN" and i2: "type i2 = IN" and e: "employee_id i2 = employee_id i1"
    and plain: "employee_id i1 \<noteq> ''__proto__''"
    and mid: "\<forall>x \<in> set mid. employee_id x \<noteq> employee_id i1"
  shows "fold forEach_body (i1 # mid @ [i2]) st = fold forEach_body (mid @ [i2]) st"
proof -
  let ?e = "employee_id i1"
  let ?t = "fold forEach_body mid st"
  have s1: "forEach_body i1 st = st\<lparr>lastIn := (lastIn st)\<lparr>own := (own (lastIn st))(?e := Some i1)\<rparr>\<rparr>"
    using plain by (simp add: forEach_body_IN[OF i1] js_set_def)
  have "fold forEach_body (i1 # mid @ [i2]) st
        = forEach_body i2 (fold forEach_body mid (forEach_body i1 st))"
    by simp
  also have "\<dots> = forEach_body i2 (?t\<lparr>lastIn := (lastIn ?t)\<lparr>own := (own (lastIn ?t))(?e := Some i1)\<rparr>\<rparr>)"
    by (simp only: s1 fold_forEach_body_own_other[OF mid])
  also have "\<dots> = forEach_body i2 ?t"
    using plain by (simp add: forEach_body_IN[OF i2] e js_set_def)
  also have "\<dots> = fold forEach_body (mid @ [i2]) st"
    by simp
  finally show ?thesis .
qed

text \<open>
  An OUT row of a plain id is dropped when \<open>lastIn\<close> has no own property of that id.
\<close>

lemma orphan_out_dropped_plain:
  "type lg = OUT \<Longrightarrow> proto (lastIn st) = Proto_Object \<Longrightarrow>
   employee_id lg \<notin> set Object_prototype_keys \<Longrightarrow> own (lastIn st) (employee_id lg) = None \<Longrightarrow>
   forEach_body lg st = st"
  by (rule forEach_body_OUT_orphan) (simp_all add: js_get_plain)

section \<open>Properties of the shift calculation\<close>

text \<open>
  C1, as the code has it. The returned list is in descending order of the OUT row's instant
  (the shift completed last comes first): the loop pushes a shift when it meets the OUT row,
  in ascending order of instants, and the result is reversed. The order of the IN instants
  can differ when the shifts of two employees overlap.
\<close>

theorem calculateShifts_out_descending: "sorted_wrt (\<ge>) (map outTime (calculateShifts logs))"
proof -
  have "sorted (map outTime (shifts (fold forEach_body (sortedLogs logs) init_state)))"
    by (rule fold_forEach_body_out_sorted) (simp_all add: sorted_sortedLogs init_state_def)
  then show ?thesis
    by (simp add: calculateShifts_def rev_map[symmetric] sorted_wrt_rev)
qed

text \<open>
  C1 as stated fails: E1 clocks in at 08:00 and out at 18:00, E2 in at 09:00 and out at
  17:00. The first shift returned is the one of E1, whose IN instant is the earlier one.
\<close>

theorem calculateShifts_not_in_descending:
  "map inTime (calculateShifts
      [event IN ''E1'' (at_time 8 0), event IN ''E2'' (at_time 9 0),
       event OUT ''E2'' (at_time 17 0), event OUT ''E1'' (at_time 18 0)])
   = [Some (at_time 8 0), Some (at_time 9 0)] \<and> at_time 8 0 < at_time 9 0"
  by (simp add: example_defs)

text \<open>
  C2, as the code has it. Two inputs with the same rows give the same shifts when they list
  the rows of every instant in the same relative order: the sort is stable, so only the
  order among rows of equal instant reaches the loop. In particular the order of the input
  does not matter when no two rows have the same instant.
\<close>

theorem calculateShifts_tie_preserving_permutation:
  "(mset xs = mset ys \<and>
    (\<forall>k. filter (\<lambda>x. timestamp x = k) xs = filter (\<lambda>x. timestamp x = k) ys) \<longrightarrow>
      calculateShifts xs = calculateShifts ys) \<and>
   (mset xs' = mset ys' \<and> distinct (map timestamp xs') \<longrightarrow>
      calculateShifts xs' = calculateShifts ys')"
proof (intro conjI impI)
  assume "mset xs = mset ys \<and>
    (\<forall>k. filter (\<lambda>x. timestamp x = k) xs = filter (\<lambda>x. timestamp x = k) ys)"
  then have "sortedLogs xs = sortedLogs ys"
    by (intro sortedLogs_cong) simp_all
  then show "calculateShifts xs = calculateShifts ys"
    by (simp add: calculateShifts_def)
next
  assume a: "mset xs' = mset ys' \<and> distinct (map timestamp xs')"
  then have "\<forall>k. filter (\<lambda>x. timestamp x = k) xs' = filter (\<lambda>x. timestamp x = k) ys'"
    using distinct_keys_filter_eq by blast
  with a have "sortedLogs xs' = sortedLogs ys'"
    by (intro sortedLogs_cong) simp_all
  then show "calculateShifts xs' = calculateShifts ys'"
    by (simp add: calculateShifts_def)
qed

theorem calculateShifts_tie_preserving_permutation_witness:
  "mset [event IN ''E1'' (at_time 9 0), event IN ''E2'' (at_time 9 0), event OUT ''E1'' (at_time 17 0)]
   = mset [event OUT ''E1'' (at_time 17 0), event IN ''E1'' (at_time 9 0), event IN ''E2'' (at_time 9 0)] \<and>
   (\<forall>k. filter (\<lambda>x. timestamp x = k)
          [event IN ''E1'' (at_time 9 0), event IN ''E2'' (at_time 9 0), event OUT ''E1'' (at_time 17 0)]
       = filter (\<lambda>x. timestamp x = k)
          [event OUT ''E1'' (at_time 17 0), event IN ''E1'' (at_time 9 0), event IN ''E2'' (at_time 9 0)]) \<and>
   calculateShifts [event IN ''E1'' (at_time 9 0), event IN ''E2'' (at_time 9 0), event OUT ''E1'' (at_time 17 0)]
   = calculateShifts [event OUT ''E1'' (at_time 17 0), event IN ''E1'' (at_time 9 0), event IN ''E2'' (at_time 9 0)] \<and>
   mset [event IN ''E1'' (at_time 9 0), event OUT ''E1'' (at_time 17 0)]
   = mset [event OUT ''E1'' (at_time 17 0), event IN ''E1'' (at_time 9 0)] \<and>
   distinct (map timestamp [event IN ''E1'' (at_time 9 0), event OUT ''E1'' (at_time 17 0)]) \<and>
   calculateShifts [event IN ''E1'' (at_time 9 0), event OUT ''E1'' (at_time 17 0)]
   = calculateShifts [event OUT ''E1'' (at_time 17 0), event IN ''E1'' (at_time 9 0)]"
proof -
  have m: "mset [event IN ''E1'' (at_time 9 0), event IN ''E2'' (at_time 9 0), event OUT ''E1'' (at_time 17 0)]
   = mset [event OUT ''E1'' (at_time 17 0), event IN ''E1'' (at_time 9 0), event IN ''E2'' (at_time 9 0)]"
    by simp
  have f: "\<forall>k. filter (\<lambda>x. timestamp x = k)
          [event IN ''E1'' (at_time 9 0), event IN ''E2'' (at_time 9 0), event OUT ''E1'' (at_time 17 0)]
       = filter (\<lambda>x. timestamp x = k)
          [event OUT ''E1'' (at_time 17 0), event IN ''E1'' (at_time 9 0), event IN ''E2'' (at_time 9 0)]"
    by (simp add: event_def at_time_def)
  have m': "mset [event IN ''E1'' (at_time 9 0), event OUT ''E1'' (at_time 17 0)]
   = mset [event OUT ''E1'' (at_time 17 0), event IN ''E1'' (at_time 9 0)]"
    by simp
  have d: "distinct (map timestamp [event IN ''E1'' (at_time 9 0), event OUT ''E1'' (at_time 17 0)])"
    by (simp add: event_def at_time_def)
  from m f m' d calculateShifts_tie_preserving_permutation
    [where xs = "[event IN ''E1'' (at_time 9 0), event IN ''E2'' (at_time 9 0),
                  event OUT ''E1'' (at_time 17 0)]"
       and ys = "[event OUT ''E1'' (at_time 17 0), event IN ''E1'' (at_time 9 0),
                  event IN ''E2'' (at_time 9 0)]"
       and xs' = "[event IN ''E1'' (at_time 9 0), event OUT ''E1'' (at_time 17 0)]"
       and ys' = "[event OUT ''E1'' (at_time 17 0), event IN ''E1'' (at_time 9 0)]"]
  show ?thesis by blast
qed

text \<open>
  C2 as stated fails: E1 and E2 clock out at the same instant 17:00. Listing the two OUT
  rows in the other order returns the two shifts in the other order.
\<close>

theorem calculateShifts_permutation_differs:
  "mset [event IN ''E1'' (at_time 9 0), event IN ''E2'' (at_time 9 30),
         event OUT ''E1'' (at_time 17 0), event OUT ''E2'' (at_time 17 0)]
   = mset [event IN ''E1'' (at_time 9 0), event IN ''E2'' (at_time 9 30),
         event OUT ''E2'' (at_time 17 0), event OUT ''E1'' (at_time 17 0)] \<and>
   calculateShifts [event IN ''E1'' (at_time 9 0), event IN ''E2'' (at_time 9 30),
         event OUT ''E1'' (at_time 17 0), event OUT ''E2'' (at_time 17 0)]
   \<noteq> calculateShifts [event IN ''E1'' (at_time 9 0), event IN ''E2'' (at_time 9 30),
         event OUT ''E2'' (at_time 17 0), event OUT ''E1'' (at_time 17 0)]"
  by (simp add: example_defs)



text \<open>
  C4 says that an OUT row scanned while no IN row is pending for its employee is dropped.
  The code does so for the single row OUT 09:00 of E1, and for every id that names no
  member of \<open>Object.prototype\<close> (\<open>orphan_out_dropped_plain\<close>). It does not for the single row
  OUT 09:00 of an employee whose id is \<open>constructor\<close>: the read \<open>lastIn['constructor']\<close>
  finds the function inherited from \<open>Object.prototype\<close>, the condition holds, and a shift
  without a date and with the hours \<open>NaN\<close> is pushed.
\<close>

theorem orphan_out_of_inherited_key_pushed:
  "calculateShifts [event OUT ''E1'' (at_time 9 0)] = [] \<and>
   calculateShifts [event OUT ''constructor'' (at_time 9 0)] =
     [\<lparr>employee = ''constructor'', date = None, inTime = None, outTime = at_time 9 0,
       hours = ''NaN'', isOvertime = False\<rparr>]"
  by (simp add: example_defs)

text \<open>
  C5, as the code has it. For rows whose ids name no member of \<open>Object.prototype\<close>: every
  returned shift is built from an IN row and an OUT row paired by the scan; its hours are
  the string that \<open>toFixed(2)\<close> gives for the difference of the instants of the two rows
  divided by the milliseconds of an hour (a double), and it is flagged as overtime exactly
  when that difference, not its rendering, exceeds 8 hours. The rows IN 09:00, OUT 17:00 give the hours
  \<open>8.00\<close> and no overtime.
\<close>

theorem shift_hours_and_overtime:
  "(plain_ids logs \<longrightarrow>
      (\<forall>s \<in> set (calculateShifts logs). \<exists>i out.
         (i, out) \<in> set (pairings logs) \<and> s = mkShift (Row i) out \<and>
         hours s = toFixed2 (Some (round_double
           (real_of_int (timestamp out - timestamp i) / (1000 * 60 * 60)))) \<and>
         isOvertime s = (real_of_int (timestamp out - timestamp i) / (1000 * 60 * 60) > 8))) \<and>
   calculateShifts [event IN ''E1'' (at_time 9 0), event OUT ''E1'' (at_time 17 0)] =
     [\<lparr>employee = ''E1'', date = Some (at_time 9 0), inTime = Some (at_time 9 0),
       outTime = at_time 17 0, hours = ''8.00'', isOvertime = False\<rparr>]"
proof (intro conjI impI ballI)
  fix s assume plain: "plain_ids logs" and "s \<in> set (calculateShifts logs)"
  then obtain i out where mem: "(i, out) \<in> set (pairings logs)" and s: "s = mkShift (Row i) out"
    using calculateShifts_member by blast
  have "hours s = toFixed2 (Some (round_double
           (real_of_int (timestamp out - timestamp i) / (1000 * 60 * 60))))"
    by (simp only: s mkShift_def Let_def shift.simps getTime.simps option.case)
  moreover have "isOvertime s =
      (8 < round_double (real_of_int (timestamp out - timestamp i) / (1000 * 60 * 60)))"
    by (simp only: s mkShift_def Let_def shift.simps getTime.simps option.case)
  then have "isOvertime s = (real_of_int (timestamp out - timestamp i) / (1000 * 60 * 60) > 8)"
    by (simp only: overtime_hours)
  ultimately show "\<exists>i out.
         (i, out) \<in> set (pairings logs) \<and> s = mkShift (Row i) out \<and>
         hours s = toFixed2 (Some (round_double
           (real_of_int (timestamp out - timestamp i) / (1000 * 60 * 60)))) \<and>
         isOvertime s = (real_of_int (timestamp out - timestamp i) / (1000 * 60 * 60) > 8)"
    using mem s by blast
next
  show "calculateShifts [event IN ''E1'' (at_time 9 0), event OUT ''E1'' (at_time 17 0)] =
     [\<lparr>employee = ''E1'', date = Some (at_time 9 0), inTime = Some (at_time 9 0),
       outTime = at_time 17 0, hours = ''8.00'', isOvertime = False\<rparr>]"
    by (simp add: example_defs)
qed

theorem shift_hours_and_overtime_witness:
  "plain_ids [event IN ''E1'' (at_time 9 0), event OUT ''E1'' (at_time 18 30)] \<and>
   calculateShifts [event IN ''E1'' (at_time 9 0), event OUT ''E1'' (at_time 18 30)] =
     [\<lparr>employee = ''E1'', date = Some (at_time 9 0), inTime = Some (at_time 9 0),
       outTime = at_time 18 30, hours = ''9.50'', isOvertime = True\<rparr>] \<and>
   toFixed2 (Some (round_double
     (real_of_int (at_time 18 30 - at_time 9 0) / (1000 * 60 * 60)))) = ''9.50'' \<and>
   real_of_int (at_time 18 30 - at_time 9 0) / (1000 * 60 * 60) > 8"
proof -
  have p: "plain_ids [event IN ''E1'' (at_time 9 0), event OUT ''E1'' (at_time 18 30)]"
    by (simp add: plain_ids_def event_def)
  from p shift_hours_and_overtime [of "[event IN ''E1'' (at_time 9 0), event OUT ''E1'' (at_time 18 30)]"]
  show ?thesis by (simp add: example_defs)
qed

text \<open>
  C5 as stated fails: E1 clocks in at 09:00:00 and out at 17:00:01. The shift returned has
  the hours \<open>8.00\<close>, which is not the difference of the instants in hours and is not above
  8, and it is flagged as overtime.
\<close>

theorem rounded_hours_with_overtime:
  "calculateShifts [event IN ''E1'' (at_time 9 0), event OUT ''E1'' (at_time 17 0 + 1000)] =
     [\<lparr>employee = ''E1'', date = Some (at_time 9 0), inTime = Some (at_time 9 0),
       outTime = at_time 17 0 + 1000, hours = ''8.00'', isOvertime = True\<rparr>]"
  by (simp add: example_defs)

text \<open>
  C8, as the code has it. For rows whose ids name no member of \<open>Object.prototype\<close>: every
  returned shift is built from an IN row and an OUT row paired by the scan, the OUT row is
  not earlier than the IN row, and the hours, rendered from a quotient that is not
  negative, carry no minus sign. The code has no check of the duration, and a duration of
  zero is returned like any other.
\<close>

theorem shift_hours_nonneg:
  "plain_ids logs \<longrightarrow>
     (\<forall>s \<in> set (calculateShifts logs). \<exists>i out.
        (i, out) \<in> set (pairings logs) \<and> s = mkShift (Row i) out \<and>
        0 \<le> timestamp out - timestamp i \<and>
        hours s = toFixed2 (Some (round_double
          (real_of_int (timestamp out - timestamp i) / (1000 * 60 * 60)))) \<and>
        hd (hours s) \<noteq> CHR ''-'')"
proof (intro impI ballI)
  fix s assume plain: "plain_ids logs" and "s \<in> set (calculateShifts logs)"
  then obtain i out where mem: "(i, out) \<in> set (pairings logs)" and s: "s = mkShift (Row i) out"
    using calculateShifts_member by blast
  from pairings_rows(6)[OF mem] have le: "0 \<le> timestamp out - timestamp i" by simp
  have h: "hours s = toFixed2 (Some (round_double
          (real_of_int (timestamp out - timestamp i) / (1000 * 60 * 60))))"
    by (simp only: s mkShift_def Let_def shift.simps getTime.simps option.case)
  from le have "0 \<le> real_of_int (timestamp out - timestamp i) / (1000 * 60 * 60)" by simp
  then have "0 \<le> round_double (real_of_int (timestamp out - timestamp i) / (1000 * 60 * 60))"
    by (rule round_double_nonneg)
  then have "hd (hours s) \<noteq> CHR ''-''"
    unfolding h by (rule toFixed2_nonneg)
  with mem s le h show "\<exists>i out.
        (i, out) \<in> set (pairings logs) \<and> s = mkShift (Row i) out \<and>
        0 \<le> timestamp out - timestamp i \<and>
        hours s = toFixed2 (Some (round_double
          (real_of_int (timestamp out - timestamp i) / (1000 * 60 * 60)))) \<and>
        hd (hours s) \<noteq> CHR ''-''"
    by blast
qed

theorem shift_hours_nonneg_witness:
  "plain_ids [event IN ''E1'' (at_time 9 0), event OUT ''E1'' (at_time 17 0)] \<and>
   calculateShifts [event IN ''E1'' (at_time 9 0), event OUT ''E1'' (at_time 17 0)] =
     [mkShift (Row (event IN ''E1'' (at_time 9 0))) (event OUT ''E1'' (at_time 17 0))] \<and>
   0 \<le> timestamp (event OUT ''E1'' (at_time 17 0)) - timestamp (event IN ''E1'' (at_time 9 0)) \<and>
   hours (mkShift (Row (event IN ''E1'' (at_time 9 0))) (event OUT ''E1'' (at_time 17 0))) = ''8.00''"
proof -
  have p: "plain_ids [event IN ''E1'' (at_time 9 0), event OUT ''E1'' (at_time 17 0)]"
    by (simp add: plain_ids_def event_def)
  from p shift_hours_nonneg [of "[event IN ''E1'' (at_time 9 0), event OUT ''E1'' (at_time 17 0)]"]
  show ?thesis by (simp add: example_defs)
qed

text \<open>
  C8 as stated fails: E1 clocks in and out at the same instant 09:00 (the IN row listed
  first). One shift with the hours \<open>0.00\<close> is returned.
\<close>

theorem zero_duration_shift_emitted:
  "calculateShifts [event IN ''E1'' (at_time 9 0), event OUT ''E1'' (at_time 9 0)] =
     [\<lparr>employee = ''E1'', date = Some (at_time 9 0), inTime = Some (at_time 9 0),
       outTime = at_time 9 0, hours = ''0.00'', isOvertime = False\<rparr>]"
  by (simp add: example_defs)

text \<open>
  C9 says that every returned shift pairs an IN row and an OUT row of the same employee.
  The code does so for rows whose ids name no member of \<open>Object.prototype\<close>
  (\<open>calculateShifts_pairings\<close>, \<open>pairings_rows\<close>). It does not for an employee with the id
  \<open>__proto__\<close> who clocks in at 09:00 and an employee with the id \<open>type\<close> who clocks out at
  10:00: the assignment \<open>lastIn['__proto__'] = log\<close> makes the IN row the prototype of
  \<open>lastIn\<close>, the read \<open>lastIn['type']\<close> finds the field \<open>type\<close> of that row, the string
  \<open>IN\<close>, and a shift is pushed for the employee \<open>type\<close>, who has no IN row.
\<close>

theorem shift_without_in_row_emitted:
  "calculateShifts [event IN ''__proto__'' (at_time 9 0), event OUT ''type'' (at_time 10 0)] =
     [\<lparr>employee = ''type'', date = None, inTime = None, outTime = at_time 10 0,
       hours = ''NaN'', isOvertime = False\<rparr>]"
  by (simp add: example_defs)

section \<open>Effect of the shift calculation on its input\<close>

lemma get_ref_deref: "get_ref h obj k = js_get (deref_object h obj) k"
  by (simp add: get_ref_def js_get_def deref_object_def
      split: option.splits prototype_ref.splits)

lemma set_ref_deref: "deref_object h (set_ref obj k r) = js_set (deref_object h obj) k (objects h r)"
  by (simp add: set_ref_def js_set_def deref_object_def fun_eq_iff)

lemma delete_ref_deref: "deref_object h (delete_ref obj k) = js_delete (deref_object h obj) k"
  by (simp add: delete_ref_def js_delete_def deref_object_def fun_eq_iff)

lemma forEach_body_heap_refines:
  "deref_state h (forEach_body_heap h r st) = forEach_body (objects h r) (deref_state h st)"
  by (simp add: forEach_body_heap_def forEach_body_def deref_state_def Let_def
      get_ref_deref set_ref_deref delete_ref_deref)

lemma fold_forEach_body_heap_refines:
  "deref_state h (fold (forEach_body_heap h) rs st)
   = fold forEach_body (map (objects h) rs) (deref_state h st)"
  by (induction rs arbitrary: st) (simp_all add: forEach_body_heap_refines)

lemma deref_init: "deref_state h init_ref_state = init_state"
  by (simp add: deref_state_def init_ref_state_def init_state_def deref_object_def)

lemma map_insort_key_comp:
  "map f (insort_key (\<lambda>x. g (f x)) a xs) = insort_key g (f a) (map f xs)"
  by (induction xs) simp_all

lemma map_sort_key_comp:
  "map f (sort_key (\<lambda>x. g (f x)) xs) = sort_key g (map f xs)"
  by (induction xs) (simp_all add: map_insort_key_comp)

lemma calculateShifts_heap_unfold:
  "calculateShifts_heap h logs =
     (let h2 = sort_in_place (snd (spread h logs)) (next_ref h)
      in (rev (shifts_r (fold (forEach_body_heap h2) (arrays h2 (next_ref h)) init_ref_state)),
          h2))"
  by (simp add: calculateShifts_heap_def spread_def Let_def)

lemma calculateShifts_heap_result:
  "fst (calculateShifts_heap h logs) = calculateShifts (map (objects h) (arrays h logs))"
proof -
  define h2 where "h2 = sort_in_place (snd (spread h logs)) (next_ref h)"
  define rs where "rs = sort_key (\<lambda>r. timestamp (objects h r)) (arrays h logs)"
  have obj: "objects h2 = objects h"
    by (simp add: h2_def sort_in_place_def spread_def)
  have arr: "arrays h2 (next_ref h) = rs"
    by (simp add: h2_def rs_def sort_in_place_def spread_def)
  have "shifts_r (fold (forEach_body_heap h2) rs init_ref_state)
        = shifts (deref_state h2 (fold (forEach_body_heap h2) rs init_ref_state))"
    by (simp add: deref_state_def)
  also have "\<dots> = shifts (fold forEach_body (map (objects h) rs) init_state)"
    by (simp add: fold_forEach_body_heap_refines deref_init obj)
  also have "map (objects h) rs = sortedLogs (map (objects h) (arrays h logs))"
    by (simp add: rs_def sortedLogs_def map_sort_key_comp)
  finally have "shifts_r (fold (forEach_body_heap h2) rs init_ref_state)
        = shifts (fold forEach_body (sortedLogs (map (objects h) (arrays h logs))) init_state)" .
  moreover have "fst (calculateShifts_heap h logs)
        = rev (shifts_r (fold (forEach_body_heap h2) rs init_ref_state))"
    by (simp add: calculateShifts_heap_unfold Let_def h2_def[symmetric] arr)
  ultimately show ?thesis
    by (simp add: calculateShifts_def)
qed

lemma calculateShifts_heap_frame:
  "objects (snd (calculateShifts_heap h logs)) = objects h"
  "a < next_ref h \<Longrightarrow> arrays (snd (calculateShifts_heap h logs)) a = arrays h a"
  by (simp_all add: calculateShifts_heap_def spread_def sort_in_place_def Let_def)

text \<open>
  C10. A call of \<open>calculateShifts\<close> on the array \<open>logs\<close> of a store leaves \<open>logs\<close> with the
  same elements in the same order, leaves every row object as it was and every array in
  use as it was (the sorted copy is a new array), and returns what the calculation on the
  rows of \<open>logs\<close> gives.
\<close>

theorem calculateShifts_leaves_input:
  "logs < next_ref h \<longrightarrow>
     arrays (snd (calculateShifts_heap h logs)) logs = arrays h logs \<and>
     objects (snd (calculateShifts_heap h logs)) = objects h \<and>
     (\<forall>a < next_ref h. arrays (snd (calculateShifts_heap h logs)) a = arrays h a) \<and>
     fst (calculateShifts_heap h logs) = calculateShifts (map (objects h) (arrays h logs))"
proof (intro impI conjI allI)
  assume "logs < next_ref h"
  then show "arrays (snd (calculateShifts_heap h logs)) logs = arrays h logs"
    by (rule calculateShifts_heap_frame(2))
next
  show "objects (snd (calculateShifts_heap h logs)) = objects h"
    by (rule calculateShifts_heap_frame(1))
next
  fix a assume "a < next_ref h"
  then show "arrays (snd (calculateShifts_heap h logs)) a = arrays h a"
    by (rule calculateShifts_heap_frame(2))
next
  show "fst (calculateShifts_heap h logs) = calculateShifts (map (objects h) (arrays h logs))"
    by (rule calculateShifts_heap_result)
qed

theorem calculateShifts_leaves_input_witness:
  "(0::nat) < next_ref example_heap \<and>
   arrays example_heap 0 = [0, 1] \<and>
   arrays (snd (calculateShifts_heap example_heap 0)) 0 = [0, 1] \<and>
   arrays (snd (calculateShifts_heap example_heap 0)) 1 = [1, 0] \<and>
   objects (snd (calculateShifts_heap example_heap 0)) = objects example_heap \<and>
   fst (calculateShifts_heap example_heap 0) =
     [mkShift (Row (event IN ''E1'' (at_time 9 0))) (event OUT ''E1'' (at_time 17 0))]"
proof -
  have a: "(0::nat) < next_ref example_heap"
    by (simp add: example_heap_def)
  have b: "arrays example_heap 0 = [0, 1]"
    by (simp add: example_heap_def)
  have c: "arrays (snd (calculateShifts_heap example_heap 0)) 1 = [1, 0]"
    by (simp add: calculateShifts_heap_def spread_def sort_in_place_def example_heap_def
        event_def at_time_def Let_def)
  have d: "calculateShifts (map (objects example_heap) (arrays example_heap 0))
       = [mkShift (Row (event IN ''E1'' (at_time 9 0))) (event OUT ''E1'' (at_time 17 0))]"
    by (simp add: example_heap_def example_defs)
  from calculateShifts_leaves_input [of 0 example_heap] a b c d show ?thesis by simp
qed

section \<open>Properties of the geofence\<close>

lemma unit_dot_bound:
  fixes s1 c1 s2 c2 k :: real
  assumes u1: "s1\<^sup>2 + c1\<^sup>2 = 1" and u2: "s2\<^sup>2 + c2\<^sup>2 = 1" and k: "k\<^sup>2 \<le> 1"
  shows "s1 * s2 + c1 * c2 * k \<le> 1"
proof -
  have "2 - 2 * (s1 * s2 + c1 * c2 * k)
        = (s1\<^sup>2 + c1\<^sup>2) + (s2\<^sup>2 + c2\<^sup>2) - 2 * (s1 * s2 + c1 * c2 * k)"
    by (simp add: u1 u2)
  also have "\<dots> = (s1 - s2)\<^sup>2 + (c1 - k * c2)\<^sup>2 + (1 - k\<^sup>2) * c2\<^sup>2"
    by (simp add: power2_eq_square algebra_simps)
  also have "\<dots> \<ge> 0"
    using k by (intro add_nonneg_nonneg mult_nonneg_nonneg) simp_all
  finally show ?thesis by simp
qed


lemma sin_half_squared: "sin (x / 2) * sin (x / 2) = (1 - cos (x::real)) / 2"
  using cos_double_sin[of "x / 2"] by (simp add: power2_eq_square)

lemma haversine_term_dot:
  "haversine_term lat1 lon1 lat2 lon2 =
     (1 - (sin (lat1 * pi / 180) * sin (lat2 * pi / 180) +
           cos (lat1 * pi / 180) * cos (lat2 * pi / 180) * cos ((lon2 - lon1) * pi / 180))) / 2"
proof -
  have d: "(lat2 - lat1) * pi / 180 = lat2 * pi / 180 - lat1 * pi / 180"
    by (simp add: algebra_simps diff_divide_distrib)
  have "haversine_term lat1 lon1 lat2 lon2 =
        sin ((lat2 * pi / 180 - lat1 * pi / 180) / 2) * sin ((lat2 * pi / 180 - lat1 * pi / 180) / 2) +
        cos (lat1 * pi / 180) * cos (lat2 * pi / 180) *
          (sin ((lon2 - lon1) * pi / 180 / 2) * sin ((lon2 - lon1) * pi / 180 / 2))"
    by (simp only: haversine_term_def Let_def d mult.assoc)
  also have "\<dots> = (1 - cos (lat2 * pi / 180 - lat1 * pi / 180)) / 2 +
        cos (lat1 * pi / 180) * cos (lat2 * pi / 180) * ((1 - cos ((lon2 - lon1) * pi / 180)) / 2)"
    by (simp only: sin_half_squared)
  also have "\<dots> = (1 - (sin (lat1 * pi / 180) * sin (lat2 * pi / 180) +
           cos (lat1 * pi / 180) * cos (lat2 * pi / 180) * cos ((lon2 - lon1) * pi / 180))) / 2"
    by (simp add: cos_diff algebra_simps diff_divide_distrib add_divide_distrib)
  finally show ?thesis .
qed

lemma haversine_term_range:
  "0 \<le> haversine_term lat1 lon1 lat2 lon2" "haversine_term lat1 lon1 lat2 lon2 \<le> 1"
proof -
  let ?s1 = "sin (lat1 * pi / 180)" and ?c1 = "cos (lat1 * pi / 180)"
  let ?s2 = "sin (lat2 * pi / 180)" and ?c2 = "cos (lat2 * pi / 180)"
  let ?k = "cos ((lon2 - lon1) * pi / 180)"
  have k: "?k\<^sup>2 \<le> 1"
    by (simp add: abs_square_le_1)
  have "?s1 * ?s2 + ?c1 * ?c2 * ?k \<le> 1"
    by (rule unit_dot_bound) (simp_all add: k)
  then show "0 \<le> haversine_term lat1 lon1 lat2 lon2"
    by (simp add: haversine_term_dot)
  have "(- ?s1) * ?s2 + (- ?c1) * ?c2 * ?k \<le> 1"
    by (rule unit_dot_bound) (simp_all add: k)
  then show "haversine_term lat1 lon1 lat2 lon2 \<le> 1"
    by (simp add: haversine_term_dot)
qed

lemma atan2_sqrt_arcsin:
  assumes "0 \<le> a" and "a \<le> 1"
  shows "atan2 (sqrt a) (sqrt (1 - a)) = arcsin (sqrt a)"
proof (cases "a = 1")
  case True
  then show ?thesis by (simp add: atan2_def)
next
  case False
  with assms have lt: "a < 1" by simp
  then have pos: "0 < sqrt (1 - a)" by simp
  have "- 1 < sqrt a"
    by (rule less_le_trans[of _ 0]) (simp_all add: assms(1))
  moreover have "sqrt a < 1" using lt by simp
  ultimately have "arcsin (sqrt a) = arctan (sqrt a / sqrt (1 - (sqrt a)\<^sup>2))"
    by (rule arcsin_arctan)
  with assms(1) pos show ?thesis by (simp add: atan2_def)
qed

lemma getDistance_haversine:
  "getDistance (lat p) (lng p) (lat q) (lng q) = spec_haversine_distance 6371000 p q"
proof -
  let ?a = "haversine_term (lat p) (lng p) (lat q) (lng q)"
  have "getDistance (lat p) (lng p) (lat q) (lng q) = 6371000 * (2 * arcsin (sqrt ?a))"
    by (simp add: getDistance_def Let_def atan2_sqrt_arcsin haversine_term_range)
  moreover have "spec_haversine_distance 6371000 p q = 2 * 6371000 * arcsin (sqrt ?a)"
    by (simp add: spec_haversine_distance_def haversine_term_def Let_def power2_eq_square
        algebra_simps diff_divide_distrib)
  ultimately show ?thesis by simp
qed

lemma getDistance_same: "getDistance la lo la lo = 0"
  by (simp add: getDistance_def haversine_term_def atan2_def)

lemma one_degree_north:
  "spec_haversine_distance 6371000 \<lparr>lat = 52.5074, lng = - 0.1278\<rparr> OFFICE_COORDS
     = 6371000 * pi / 180"
proof -
  have r: "0 \<le> sin (pi / 360)"
    by (rule sin_ge_zero) (use pi_gt_zero in simp_all)
  have "spec_haversine_distance 6371000 \<lparr>lat = 52.5074, lng = - 0.1278\<rparr> OFFICE_COORDS
        = 2 * 6371000 * arcsin (sqrt ((sin (- (pi / 360)))\<^sup>2))"
    by (simp add: spec_haversine_distance_def OFFICE_COORDS_def Let_def algebra_simps)
  also have "\<dots> = 2 * 6371000 * arcsin (sin (pi / 360))"
    using r by simp
  also have "arcsin (sin (pi / 360)) = pi / 360"
    by (rule arcsin_sin) (use pi_gt_zero in simp_all)
  finally show ?thesis by simp
qed

text \<open>
  C6. A position that arrives is classified as OK exactly when its haversine distance to
  the office on a sphere of radius 6371000 m is at most the radius of the geofence, and as
  out of range otherwise; the office coordinate itself is classified as OK.
\<close>

theorem geofence_ok_iff_within_radius:
  "gpsStatus (on_position p st) =
     (if spec_haversine_distance 6371000 p OFFICE_COORDS \<le> GEOFENCE_RADIUS
      then OK else Out_of_Range) \<and>
   location (on_position p st) = Some p \<and>
   gpsStatus (on_position OFFICE_COORDS st) = OK"
  by (simp add: on_position_def Let_def getDistance_haversine[symmetric] getDistance_same
      GEOFENCE_RADIUS_def)

theorem geofence_ok_iff_within_radius_witness:
  "gpsStatus (on_position \<lparr>lat = 52.5074, lng = - 0.1278\<rparr> initial_geo) = Out_of_Range \<and>
   gpsStatus (on_position OFFICE_COORDS initial_geo) = OK"
proof -
  have "GEOFENCE_RADIUS
      < spec_haversine_distance 6371000 \<lparr>lat = 52.5074, lng = - 0.1278\<rparr> OFFICE_COORDS"
    unfolding one_degree_north GEOFENCE_RADIUS_def using pi_ge_two by simp
  then have "\<not> spec_haversine_distance 6371000 \<lparr>lat = 52.5074, lng = - 0.1278\<rparr> OFFICE_COORDS
      \<le> GEOFENCE_RADIUS"
    by (simp only: not_le)
  with geofence_ok_iff_within_radius [of "\<lparr>lat = 52.5074, lng = - 0.1278\<rparr>" initial_geo] show ?thesis by simp
qed

section \<open>Properties of the geolocation callbacks\<close>

lemma getDistance_js_real:
  "getDistance_js (Some la1) (Some lo1) (Some la2) (Some lo2) = Some (getDistance la1 lo1 la2 lo2)"
proof -
  have r: "\<not> haversine_term la1 lo1 la2 lo2 < 0" "\<not> 1 - haversine_term la1 lo1 la2 lo2 < 0"
    using haversine_term_range[of la1 lo1 la2 lo2] by simp_all
  have a: "sin ((la2 - la1) * pi / 180 / 2) * sin ((la2 - la1) * pi / 180 / 2) +
        cos (la1 * pi / 180) * cos (la2 * pi / 180) * sin ((lo2 - lo1) * pi / 180 / 2) *
          sin ((lo2 - lo1) * pi / 180 / 2) = haversine_term la1 lo1 la2 lo2"
    by (simp only: haversine_term_def Let_def)
  show ?thesis
    by (simp only: getDistance_js_def getDistance_def Let_def js_op1_def js_op2_def js_sqrt_def
        option.case a r if_False)
qed

lemma getDistance_js_NaN:
  "lat1 = None \<or> lon1 = None \<Longrightarrow> getDistance_js lat1 lon1 lat2 lon2 = None"
  by (auto simp: getDistance_js_def Let_def js_op1_def js_op2_def js_sqrt_def
      split: option.splits)

lemma position_callback_real:
  "position_callback \<lparr>js_lat = Some la, js_lng = Some lo\<rparr> st =
     Inr (st\<lparr>location_js := Some \<lparr>js_lat = Some la, js_lng = Some lo\<rparr>,
             gpsStatus_js :=
               (if getDistance la lo (lat OFFICE_COORDS) (lng OFFICE_COORDS) \<le> GEOFENCE_RADIUS
                then OK else Out_of_Range)\<rparr>)"
  by (simp add: position_callback_def getDistance_js_real js_le_def Let_def)

lemma position_callback_NaN:
  "js_lat c = None \<or> js_lng c = None \<Longrightarrow>
   position_callback c st = Inr (st\<lparr>location_js := Some c, gpsStatus_js := Out_of_Range\<rparr>)"
  by (simp add: position_callback_def getDistance_js_NaN js_le_def Let_def)

lemma getDistance_turn_north: "getDistance 411.5074 (- 0.1278) 51.5074 (- 0.1278) = 0"
proof -
  have "haversine_term 411.5074 (- 0.1278) 51.5074 (- 0.1278) = sin (- pi) * sin (- pi)"
    by (simp add: haversine_term_def)
  then have "haversine_term 411.5074 (- 0.1278) 51.5074 (- 0.1278) = 0"
    by simp
  then show ?thesis
    by (simp add: getDistance_def atan2_def)
qed

lemma geo_run_Inr: "\<exists>st'. geo_run evs st = Inr st'"
proof (induction evs arbitrary: st)
  case Nil
  show ?case by simp
next
  case (Cons ev evs)
  obtain st1 where "geo_step ev st = Inr st1"
    by (cases ev) (simp_all add: position_callback_def error_callback_def Let_def)
  with Cons.IH[of st1] show ?case by simp
qed

lemma geo_run_absent:
  "geo_run evs st = Inr st' \<Longrightarrow> location_js st' = None \<Longrightarrow>
   location_js st = None \<and>
   gpsStatus_js st' = (if evs = [] then gpsStatus_js st else Out_of_Range)"
proof (induction evs arbitrary: st)
  case Nil
  then show ?case by simp
next
  case (Cons ev evs)
  show ?case
  proof (cases ev)
    case (Position c)
    then have "geo_run evs (st\<lparr>location_js := Some c,
        gpsStatus_js := (if js_le (getDistance_js (js_lat c) (js_lng c)
           (Some (lat OFFICE_COORDS)) (Some (lng OFFICE_COORDS))) (Some GEOFENCE_RADIUS)
           then OK else Out_of_Range)\<rparr>) = Inr st'"
      using Cons.prems(1) by (simp add: position_callback_def Let_def)
    from Cons.IH[OF this Cons.prems(2)] show ?thesis by simp
  next
    case PositionError
    then have run: "geo_run evs (st\<lparr>gpsStatus_js := Out_of_Range\<rparr>) = Inr st'"
      using Cons.prems(1) by (simp add: error_callback_def)
    from Cons.IH[OF run Cons.prems(2)] show ?thesis by simp
  qed
qed

text \<open>
  C7 as stated fails twice. When the request fails before any position arrived, the point
  is absent and the status is out of range, not searching. And a position whose latitude is
  out of range, 411.5074 degrees, one turn beyond the office's, is at distance 0 and is
  classified as OK, neither searching nor out of range.
\<close>

theorem failed_acquisition_out_of_range:
  "geo_run [PositionError] initial_clock =
     Inr \<lparr>location_js = None, gpsStatus_js = Out_of_Range\<rparr> \<and>
   position_callback \<lparr>js_lat = Some 411.5074, js_lng = Some (- 0.1278)\<rparr> initial_clock =
     Inr \<lparr>location_js = Some \<lparr>js_lat = Some 411.5074, js_lng = Some (- 0.1278)\<rparr>,
          gpsStatus_js = OK\<rparr>"
proof
  show "geo_run [PositionError] initial_clock =
     Inr \<lparr>location_js = None, gpsStatus_js = Out_of_Range\<rparr>"
    by (simp add: error_callback_def initial_clock_def)
  have "getDistance 411.5074 (- 0.1278) (lat OFFICE_COORDS) (lng OFFICE_COORDS) = 0"
    unfolding OFFICE_COORDS_def coords.simps by (rule getDistance_turn_north)
  then show "position_callback \<lparr>js_lat = Some 411.5074, js_lng = Some (- 0.1278)\<rparr> initial_clock =
     Inr \<lparr>location_js = Some \<lparr>js_lat = Some 411.5074, js_lng = Some (- 0.1278)\<rparr>,
          gpsStatus_js = OK\<rparr>"
    by (simp only: position_callback_real) (simp add: initial_clock_def GEOFENCE_RADIUS_def)
qed

text \<open>
  C7, as the code has it. The status is searching, with the point absent, until a callback
  runs; the error callback leaves the point as it is and sets the status to out of range;
  no run of callbacks throws, and whenever the point is absent after a run the status is
  searching if no callback has run and out of range otherwise, never OK. A position with a
  NaN coordinate is classified as out of range. A position with real coordinates, whatever
  their range, is classified by its distance to the office alone. Neither callback throws.
\<close>

theorem absent_point_status:
  "location_js initial_clock = None \<and> gpsStatus_js initial_clock = Searching \<and>
   error_callback st = Inr (st\<lparr>gpsStatus_js := Out_of_Range\<rparr>) \<and>
   (\<exists>st'. geo_run evs initial_clock = Inr st' \<and>
      (location_js st' = None \<longrightarrow>
         gpsStatus_js st' = (if evs = [] then Searching else Out_of_Range))) \<and>
   (js_lat c = None \<or> js_lng c = None \<longrightarrow>
      position_callback c st = Inr (st\<lparr>location_js := Some c, gpsStatus_js := Out_of_Range\<rparr>)) \<and>
   position_callback \<lparr>js_lat = Some la, js_lng = Some lo\<rparr> st =
     Inr (st\<lparr>location_js := Some \<lparr>js_lat = Some la, js_lng = Some lo\<rparr>,
             gpsStatus_js :=
               (if getDistance la lo (lat OFFICE_COORDS) (lng OFFICE_COORDS) \<le> GEOFENCE_RADIUS
                then OK else Out_of_Range)\<rparr>)"
proof (intro conjI impI)
  show "location_js initial_clock = None" "gpsStatus_js initial_clock = Searching"
    by (simp_all add: initial_clock_def)
  show "error_callback st = Inr (st\<lparr>gpsStatus_js := Out_of_Range\<rparr>)"
    by (simp add: error_callback_def)
  obtain st' where run: "geo_run evs initial_clock = Inr st'"
    using geo_run_Inr by blast
  have "location_js st' = None \<longrightarrow>
         gpsStatus_js st' = (if evs = [] then Searching else Out_of_Range)"
    using geo_run_absent[OF run] by (simp add: initial_clock_def)
  with run show "\<exists>st'. geo_run evs initial_clock = Inr st' \<and>
      (location_js st' = None \<longrightarrow>
         gpsStatus_js st' = (if evs = [] then Searching else Out_of_Range))"
    by simp
  show "position_callback \<lparr>js_lat = Some la, js_lng = Some lo\<rparr> st =
     Inr (st\<lparr>location_js := Some \<lparr>js_lat = Some la, js_lng = Some lo\<rparr>,
             gpsStatus_js :=
               (if getDistance la lo (lat OFFICE_COORDS) (lng OFFICE_COORDS) \<le> GEOFENCE_RADIUS
                then OK else Out_of_Range)\<rparr>)"
    by (rule position_callback_real)
next
  assume "js_lat c = None \<or> js_lng c = None"
  then show "position_callback c st = Inr (st\<lparr>location_js := Some c, gpsStatus_js := Out_of_Range\<rparr>)"
    by (rule position_callback_NaN)
qed

theorem absent_point_status_witness:
  "geo_run [PositionError, PositionError] initial_clock =
     Inr \<lparr>location_js = None, gpsStatus_js = Out_of_Range\<rparr> \<and>
   js_lat \<lparr>js_lat = None, js_lng = Some (- 0.1278)\<rparr> = None \<and>
   position_callback \<lparr>js_lat = None, js_lng = Some (- 0.1278)\<rparr> initial_clock =
     Inr \<lparr>location_js = Some \<lparr>js_lat = None, js_lng = Some (- 0.1278)\<rparr>,
          gpsStatus_js = Out_of_Range\<rparr>"
proof -
  have r: "geo_run [PositionError, PositionError] initial_clock =
     Inr \<lparr>location_js = None, gpsStatus_js = Out_of_Range\<rparr>"
    by (simp add: error_callback_def initial_clock_def)
  have n: "js_lat \<lparr>js_lat = None, js_lng = Some (- 0.1278)\<rparr> = None"
    by simp
  from r n absent_point_status [where evs = "[PositionError, PositionError]"
      and c = "\<lparr>js_lat = None, js_lng = Some (- 0.1278)\<rparr>" and st = initial_clock]
  show ?thesis by (simp add: initial_clock_def)
qed

end
